theory Spec2Isabelle
  imports Main "HOL-Library.Log_Nat"
begin

section \<open>Python values used by the subtitle exporter\<close>

subsection \<open>Strings and exceptions\<close>

text \<open>
  A Python \<open>str\<close> is a sequence of Unicode code points. ASCII literals of the source are
  written with \<open>lit\<close>; other literals are given by their code points.
\<close>

type_synonym pystr = "nat list"

definition lit :: "string \<Rightarrow> pystr" where
  "lit s = map of_char s"

text \<open>
  The exceptions the modelled operations raise. All but \<open>KeyboardInterrupt\<close> derive from
  Python's \<open>Exception\<close>; \<open>ExpatError\<close> is what \<open>minidom.parseString\<close> raises.
\<close>

datatype exn =
  OSError | UnicodeEncodeError | ValueError | OverflowError | ExpatError | KeyboardInterrupt

fun is_Exception :: "exn \<Rightarrow> bool" where
  "is_Exception KeyboardInterrupt = False"
| "is_Exception _ = True"

definition bindE :: "exn + 'a \<Rightarrow> ('a \<Rightarrow> exn + 'b) \<Rightarrow> exn + 'b" where
  "bindE m f = (case m of Inl e \<Rightarrow> Inl e | Inr x \<Rightarrow> f x)"

subsection \<open>Floats\<close>

text \<open>
  A Python \<open>float\<close> is an IEEE 754 binary64 value. A finite value is kept as the rational
  it denotes; every arithmetic result is rounded to binary64 (nearest, ties to even) by
  \<open>round_binary64\<close>, which overflows to an infinity when the rounded magnitude reaches
  \<open>2 ^ 1024\<close>. Negative zero is a value of its own only as an input (it prints
  differently); arithmetic results that are zero are \<open>Finite 0\<close>, since the exporter reads
  them through \<open>int()\<close> only.
\<close>

datatype pyfloat = Finite rat | NegZero | PosInf | NegInf | NaN

definition pow2 :: "int \<Rightarrow> rat" where
  "pow2 e = (if 0 \<le> e then 2 ^ nat e else 1 / 2 ^ nat (- e))"

definition floor_log2 :: "rat \<Rightarrow> int" where
  \<comment> \<open>for \<open>0 < x\<close>: the \<open>e\<close> with \<open>2 ^ e \<le> x < 2 ^ (e + 1)\<close>\<close>
  "floor_log2 x = (if 1 \<le> x then bitlen \<lfloor>x\<rfloor> - 1 else - bitlen (\<lceil>1 / x\<rceil> - 1))"

definition round_half_even :: "rat \<Rightarrow> int" where
  "round_half_even q =
     (let f = \<lfloor>q\<rfloor>; r = q - of_int f
      in if r < 1 / 2 then f else if 1 / 2 < r then f + 1 else if even f then f else f + 1)"

definition round_binary64 :: "rat \<Rightarrow> pyfloat" where
  "round_binary64 x =
     (if x = 0 then Finite 0
      else let e = max (floor_log2 \<bar>x\<bar>) (- 1022);
               ulp = pow2 (e - 52);
               y = of_int (round_half_even (x / ulp)) * ulp
           in if y \<noteq> 0 \<and> 1024 \<le> floor_log2 \<bar>y\<bar> then (if 0 < x then PosInf else NegInf)
              else Finite y)"

definition trunc :: "rat \<Rightarrow> int" where
  \<comment> \<open>rounding toward zero\<close>
  "trunc q = (if 0 \<le> q then \<lfloor>q\<rfloor> else \<lceil>q\<rceil>)"

fun float_sub :: "pyfloat \<Rightarrow> pyfloat \<Rightarrow> pyfloat" where
  "float_sub NaN _ = NaN"
| "float_sub _ NaN = NaN"
| "float_sub PosInf PosInf = NaN"
| "float_sub NegInf NegInf = NaN"
| "float_sub PosInf _ = PosInf"
| "float_sub NegInf _ = NegInf"
| "float_sub _ PosInf = NegInf"
| "float_sub _ NegInf = PosInf"
| "float_sub NegZero NegZero = Finite 0"
| "float_sub NegZero (Finite b) = round_binary64 (- b)"
| "float_sub (Finite a) NegZero = round_binary64 a"
| "float_sub (Finite a) (Finite b) = round_binary64 (a - b)"

fun float_add :: "pyfloat \<Rightarrow> pyfloat \<Rightarrow> pyfloat" where
  "float_add NaN _ = NaN"
| "float_add _ NaN = NaN"
| "float_add PosInf NegInf = NaN"
| "float_add NegInf PosInf = NaN"
| "float_add PosInf _ = PosInf"
| "float_add NegInf _ = NegInf"
| "float_add _ PosInf = PosInf"
| "float_add _ NegInf = NegInf"
| "float_add NegZero NegZero = Finite 0"
| "float_add NegZero (Finite b) = round_binary64 b"
| "float_add (Finite a) NegZero = round_binary64 a"
| "float_add (Finite a) (Finite b) = round_binary64 (a + b)"

fun float_sgn :: "pyfloat \<Rightarrow> int" where
  \<comment> \<open>\<open>1\<close>, \<open>-1\<close>, or \<open>0\<close> for a zero or a NaN\<close>
  "float_sgn (Finite a) = (if 0 < a then 1 else if a < 0 then - 1 else 0)"
| "float_sgn PosInf = 1"
| "float_sgn NegInf = - 1"
| "float_sgn _ = 0"

fun float_mul :: "pyfloat \<Rightarrow> pyfloat \<Rightarrow> pyfloat" where
  "float_mul NaN _ = NaN"
| "float_mul _ NaN = NaN"
| "float_mul (Finite a) (Finite b) = round_binary64 (a * b)"
| "float_mul NegZero (Finite b) = Finite 0"
| "float_mul (Finite a) NegZero = Finite 0"
| "float_mul NegZero NegZero = Finite 0"
| "float_mul x y =
     (let s = float_sgn x * float_sgn y
      in if s = 0 then NaN else if 0 < s then PosInf else NegInf)"

definition float_gt :: "pyfloat \<Rightarrow> pyfloat \<Rightarrow> bool" where
  \<comment> \<open>Python's \<open>a > b\<close>: false whenever a NaN is involved\<close>
  "float_gt a b =
     (case (a, b) of
        (NaN, _) \<Rightarrow> False
      | (_, NaN) \<Rightarrow> False
      | (PosInf, PosInf) \<Rightarrow> False
      | (PosInf, _) \<Rightarrow> True
      | (_, PosInf) \<Rightarrow> False
      | (NegInf, _) \<Rightarrow> False
      | (_, NegInf) \<Rightarrow> True
      | (Finite x, Finite y) \<Rightarrow> y < x
      | (Finite x, NegZero) \<Rightarrow> 0 < x
      | (NegZero, Finite y) \<Rightarrow> y < 0
      | (NegZero, NegZero) \<Rightarrow> False)"

definition py_int :: "pyfloat \<Rightarrow> exn + int" where
  \<comment> \<open>\<open>int(x)\<close> of a float: truncation toward zero\<close>
  "py_int x =
     (case x of
        Finite q \<Rightarrow> Inr (trunc q)
      | NegZero \<Rightarrow> Inr 0
      | NaN \<Rightarrow> Inl ValueError
      | _ \<Rightarrow> Inl OverflowError)"

definition int_to_float :: "int \<Rightarrow> exn + pyfloat" where
  \<comment> \<open>the conversion of an \<open>int\<close> operand in mixed arithmetic\<close>
  "int_to_float n =
     (case round_binary64 (of_int n) of
        Finite q \<Rightarrow> Inr (Finite q)
      | _ \<Rightarrow> Inl OverflowError)"

definition int_truediv :: "int \<Rightarrow> int \<Rightarrow> exn + pyfloat" where
  \<comment> \<open>\<open>a / b\<close> on ints with \<open>b \<noteq> 0\<close>: the correctly rounded quotient\<close>
  "int_truediv a b =
     (case round_binary64 (of_int a / of_int b) of
        Finite q \<Rightarrow> Inr (Finite q)
      | _ \<Rightarrow> Inl OverflowError)"

subsection \<open>Formatting integers\<close>

definition digit_char :: "nat \<Rightarrow> char" where
  "digit_char d = char_of (48 + d)"

fun digits :: "nat \<Rightarrow> string" where
  "digits n = (if n < 10 then [digit_char n] else digits (n div 10) @ [digit_char (n mod 10)])"

declare digits.simps [simp del]

definition str_int :: "int \<Rightarrow> pystr" where
  \<comment> \<open>\<open>str(n)\<close>, also \<open>f"{n}"\<close>\<close>
  "str_int n = lit ((if n < 0 then ''-'' else []) @ digits (nat \<bar>n\<bar>))"

definition fmt_0d :: "nat \<Rightarrow> int \<Rightarrow> pystr" where
  \<comment> \<open>\<open>f"{n:0wd}"\<close>: zeros between the sign and the digits up to width \<open>w\<close>\<close>
  "fmt_0d w n =
     (let ds = digits (nat \<bar>n\<bar>);
          sign = (if n < 0 then ''-'' else [])
      in lit (sign @ replicate (w - length sign - length ds) (CHR ''0'') @ ds))"

section \<open>Timecodes\<close>

text \<open>
  \<open>timedelta(seconds=s).total_seconds()\<close> for a float \<open>s\<close>. The constructor splits \<open>s\<close>
  into integral and fractional part, scales the fractional part by \<open>1e6\<close> in float
  arithmetic, and rounds the sum to a whole number of microseconds, ties to even; it
  raises for a NaN, an infinity, and more than 999999999 days. \<open>total_seconds\<close> divides the
  microseconds by \<open>10**6\<close>.
\<close>

definition timedelta_microseconds :: "pyfloat \<Rightarrow> exn + int" where
  "timedelta_microseconds s =
     (case s of
        NaN \<Rightarrow> Inl ValueError
      | PosInf \<Rightarrow> Inl OverflowError
      | NegInf \<Rightarrow> Inl OverflowError
      | NegZero \<Rightarrow> Inr 0
      | Finite q \<Rightarrow>
          (let intpart = trunc q;
               fracpart = q - of_int intpart;
               us = intpart * 10 ^ 6 +
                 (if fracpart = 0 then 0
                  else case round_binary64 (10 ^ 6 * fracpart) of
                         Finite d \<Rightarrow> round_half_even d | _ \<Rightarrow> 0)
           in if 999999999 < \<bar>us div 10 ^ 6 div 86400\<bar> then Inl OverflowError else Inr us))"

definition total_seconds :: "int \<Rightarrow> exn + pyfloat" where
  "total_seconds us = int_truediv us (10 ^ 6)"

definition subsecond :: "pyfloat \<Rightarrow> int \<Rightarrow> exn + int" where
  \<comment> \<open>\<open>int((seconds - int(seconds)) * scale)\<close>\<close>
  "subsecond seconds scale =
     bindE (py_int seconds) (\<lambda>whole.
     bindE (int_to_float whole) (\<lambda>whole_f.
     bindE (int_to_float scale) (\<lambda>scale_f.
       py_int (float_mul (float_sub seconds whole_f) scale_f))))"

definition format_srt_time :: "pyfloat \<Rightarrow> exn + pystr" where
  "format_srt_time seconds =
     bindE (timedelta_microseconds seconds) (\<lambda>td.
     bindE (total_seconds td) (\<lambda>ts.
     bindE (py_int ts) (\<lambda>total_seconds.
       let hours = total_seconds div 3600;
           minutes = (total_seconds mod 3600) div 60;
           secs = total_seconds mod 60
       in bindE (subsecond seconds 1000) (\<lambda>millis.
            Inr (fmt_0d 2 hours @ lit '':'' @ fmt_0d 2 minutes @ lit '':'' @ fmt_0d 2 secs
                 @ lit '','' @ fmt_0d 3 millis)))))"

definition format_ass_time :: "pyfloat \<Rightarrow> exn + pystr" where
  "format_ass_time seconds =
     bindE (timedelta_microseconds seconds) (\<lambda>td.
     bindE (total_seconds td) (\<lambda>ts.
     bindE (py_int ts) (\<lambda>total_seconds.
       let hours = total_seconds div 3600;
           minutes = (total_seconds mod 3600) div 60;
           secs = total_seconds mod 60
       in bindE (subsecond seconds 100) (\<lambda>centisecs.
            Inr (str_int hours @ lit '':'' @ fmt_0d 2 minutes @ lit '':'' @ fmt_0d 2 secs
                 @ lit ''.'' @ fmt_0d 2 centisecs)))))"

section \<open>Files and the exporter's effects\<close>

text \<open>
  A file holds bytes. Text-mode writing with \<open>encoding='utf-8'\<close> first replaces every
  \<open>'\n'\<close> by the platform's line separator (\<open>os.linesep\<close>, as \<open>open\<close> does with its
  default \<open>newline=None\<close>), then encodes; lone surrogates cannot be encoded.
\<close>

definition utf8_char :: "nat \<Rightarrow> exn + string" where
  "utf8_char c =
     (if c < 0x80 then Inr [char_of c]
      else if c < 0x800 then Inr [char_of (0xC0 + c div 0x40), char_of (0x80 + c mod 0x40)]
      else if 0xD800 \<le> c \<and> c < 0xE000 then Inl UnicodeEncodeError
      else if c < 0x10000
        then Inr [char_of (0xE0 + c div 0x1000), char_of (0x80 + c div 0x40 mod 0x40),
                  char_of (0x80 + c mod 0x40)]
      else if c < 0x110000
        then Inr [char_of (0xF0 + c div 0x40000), char_of (0x80 + c div 0x1000 mod 0x40),
                  char_of (0x80 + c div 0x40 mod 0x40), char_of (0x80 + c mod 0x40)]
      else Inl UnicodeEncodeError)"

fun utf8_encode :: "pystr \<Rightarrow> exn + string" where
  "utf8_encode [] = Inr []"
| "utf8_encode (c # cs) =
     bindE (utf8_char c) (\<lambda>b. bindE (utf8_encode cs) (\<lambda>bs. Inr (b @ bs)))"

definition translate_newlines :: "pystr \<Rightarrow> pystr \<Rightarrow> pystr" where
  "translate_newlines sep s = concat (map (\<lambda>c. if c = 10 then sep else [c]) s)"

text \<open>
  The world the exporter acts on: the files by path, which paths \<open>open\<close> accepts for
  writing, how many bytes a file may grow to before a write fails (\<open>None\<close>: no limit), the
  platform's line separator, what was printed (the message prefix and the exception
  whose text follows it), and what \<open>print\<close> raises for such a message, if anything:
  \<open>sys.stdout\<close> may be closed, or have an encoding that cannot encode the message (the
  message of a failed \<open>open\<close> quotes the path).

  A write beyond the limit raises at once and leaves the file as it was. The real text
  file is buffered, so a failed export may leave another prefix of its output; the
  properties below are about what the exports return and about successful exports.
\<close>

record world =
  files :: "pystr \<Rightarrow> string option"
  openable :: "pystr \<Rightarrow> bool"
  quota :: "pystr \<Rightarrow> nat option"
  os_linesep :: pystr
  stdout :: "(string \<times> exn) list"
  print_error :: "string \<Rightarrow> exn \<Rightarrow> exn option"

type_synonym 'a io = "world \<Rightarrow> (exn + 'a) \<times> world"

definition returnIO :: "'a \<Rightarrow> 'a io" where
  "returnIO x w = (Inr x, w)"

definition liftE :: "exn + 'a \<Rightarrow> 'a io" where
  "liftE r w = (r, w)"

definition bindIO :: "'a io \<Rightarrow> ('a \<Rightarrow> 'b io) \<Rightarrow> 'b io" where
  "bindIO m f w = (case m w of (Inl e, w') \<Rightarrow> (Inl e, w') | (Inr x, w') \<Rightarrow> f x w')"

definition content :: "world \<Rightarrow> pystr \<Rightarrow> string" where
  "content w path = (case files w path of Some c \<Rightarrow> c | None \<Rightarrow> [])"

definition open_w :: "pystr \<Rightarrow> unit io" where
  \<comment> \<open>\<open>open(path, 'w')\<close> and \<open>open(path, 'wb')\<close>: creates or truncates the file\<close>
  "open_w path w =
     (if openable w path then (Inr (), w\<lparr>files := (files w)(path \<mapsto> [])\<rparr>)
      else (Inl OSError, w))"

definition append_file :: "pystr \<Rightarrow> string \<Rightarrow> world \<Rightarrow> world" where
  "append_file path bs w = w\<lparr>files := (files w)(path \<mapsto> content w path @ bs)\<rparr>"

definition write_bytes :: "pystr \<Rightarrow> string \<Rightarrow> unit io" where
  "write_bytes path bs w =
     (if (case quota w path of Some n \<Rightarrow> n < length (content w path @ bs) | None \<Rightarrow> False)
      then (Inl OSError, w)
      else (Inr (), append_file path bs w))"

definition encode_text :: "world \<Rightarrow> pystr \<Rightarrow> exn + string" where
  "encode_text w s = utf8_encode (translate_newlines (os_linesep w) s)"

definition write_text :: "pystr \<Rightarrow> pystr \<Rightarrow> unit io" where
  \<comment> \<open>\<open>f.write(s)\<close> on a file opened in text mode\<close>
  "write_text path s w = bindIO (liftE (encode_text w s)) (write_bytes path) w"

fun write_each :: "pystr \<Rightarrow> pystr list \<Rightarrow> unit io" where
  "write_each path [] = returnIO ()"
| "write_each path (s # ss) = bindIO (write_text path s) (\<lambda>_. write_each path ss)"

definition print_message :: "string \<Rightarrow> exn \<Rightarrow> unit io" where
  \<comment> \<open>\<open>print(f"msg{e}")\<close>\<close>
  "print_message msg e w =
     (case print_error w msg e of
        Some raised \<Rightarrow> (Inl raised, w)
      | None \<Rightarrow> (Inr (), w\<lparr>stdout := stdout w @ [(msg, e)]\<rparr>))"

definition try_except :: "string \<Rightarrow> bool io \<Rightarrow> bool io" where
  \<comment> \<open>\<open>try: body  except Exception as e: print(f"msg{e}"); return False\<close>; what the handler
    raises leaves the function\<close>
  "try_except msg body w =
     (case body w of
        (Inl e, w') \<Rightarrow>
          if is_Exception e then bindIO (print_message msg e) (\<lambda>_. returnIO False) w'
          else (Inl e, w')
      | (Inr r, w') \<Rightarrow> (Inr r, w'))"

section \<open>SubtitleExporter\<close>

text \<open>A segment is a dict with the keys \<open>'start'\<close>, \<open>'end'\<close> (floats) and \<open>'text'\<close>.\<close>

record segment =
  seg_start :: pyfloat
  seg_end :: pyfloat
  seg_text :: pystr

subsection \<open>SRT\<close>

fun srt_entries :: "pystr \<Rightarrow> int \<Rightarrow> segment list \<Rightarrow> unit io" where
  "srt_entries path i [] = returnIO ()"
| "srt_entries path i (seg # segments) =
     bindIO (write_text path (str_int i @ [10])) (\<lambda>_.
     bindIO (liftE (format_srt_time (seg_start seg))) (\<lambda>start_time.
     bindIO (liftE (format_srt_time (seg_end seg))) (\<lambda>end_time.
     bindIO (write_text path (start_time @ lit '' --> '' @ end_time @ [10])) (\<lambda>_.
     bindIO (write_text path (seg_text seg @ [10])) (\<lambda>_.
     bindIO (write_text path [10]) (\<lambda>_.
     srt_entries path (i + 1) segments))))))"

definition srt_body :: "segment list \<Rightarrow> pystr \<Rightarrow> bool io" where
  \<comment> \<open>the \<open>try\<close> block of \<open>export_srt\<close>\<close>
  "srt_body segments output_path =
     bindIO (open_w output_path) (\<lambda>_.
     bindIO (srt_entries output_path 1 segments) (\<lambda>_.
     returnIO True))"

definition export_srt :: "segment list \<Rightarrow> pystr \<Rightarrow> bool io" where
  "export_srt segments output_path =
     try_except ''Error exporting SRT: '' (srt_body segments output_path)"

subsection \<open>ASS\<close>

definition ass_header :: "pystr \<Rightarrow> pystr list" where
  \<comment> \<open>the strings written before the events, one per \<open>f.write\<close>\<close>
  "ass_header style_name =
     [lit ''[Script Info]'' @ [10],
      lit ''Title: Canto-beats Export'' @ [10],
      lit ''ScriptType: v4.00+'' @ [10],
      lit ''Collisions: Normal'' @ [10],
      lit ''PlayDepth: 0'' @ [10, 10],
      lit ''[V4+ Styles]'' @ [10],
      lit ''Format: Name, Fontname, Fontsize, PrimaryColour, SecondaryColour, ''
        @ lit ''OutlineColour, BackColour, Bold, Italic, Underline, StrikeOut, ''
        @ lit ''ScaleX, ScaleY, Spacing, Angle, BorderStyle, Outline, Shadow, ''
        @ lit ''Alignment, MarginL, MarginR, MarginV, Encoding'' @ [10],
      lit ''Style: '' @ style_name @ lit '',Arial,20,&H00FFFFFF,&H000000FF,&H00000000,''
        @ lit ''&H00000000,0,0,0,0,100,100,0,0,1,2,2,2,10,10,10,1'' @ [10, 10],
      lit ''[Events]'' @ [10],
      lit ''Format: Layer, Start, End, Style, Name, MarginL, MarginR, MarginV, Effect, Text''
        @ [10]]"

definition replace_char :: "nat \<Rightarrow> pystr \<Rightarrow> pystr \<Rightarrow> pystr" where
  \<comment> \<open>\<open>s.replace(c, new)\<close> for a one-character \<open>c\<close>\<close>
  "replace_char c new s = concat (map (\<lambda>x. if x = c then new else [x]) s)"

fun ass_events :: "pystr \<Rightarrow> pystr \<Rightarrow> segment list \<Rightarrow> unit io" where
  "ass_events path style_name [] = returnIO ()"
| "ass_events path style_name (seg # segments) =
     bindIO (liftE (format_ass_time (seg_start seg))) (\<lambda>start_time.
     bindIO (liftE (format_ass_time (seg_end seg))) (\<lambda>end_time.
       let text = replace_char 10 (lit [CHR 0x5C, CHR ''N'']) (seg_text seg)
       in bindIO (write_text path
                   (lit ''Dialogue: 0,'' @ start_time @ lit '','' @ end_time @ lit '',''
                    @ style_name @ lit '',,0,0,0,,'' @ text @ [10])) (\<lambda>_.
          ass_events path style_name segments)))"

definition ass_body :: "segment list \<Rightarrow> pystr \<Rightarrow> pystr \<Rightarrow> bool io" where
  \<comment> \<open>the \<open>try\<close> block of \<open>export_ass\<close>\<close>
  "ass_body segments output_path style_name =
     bindIO (open_w output_path) (\<lambda>_.
     bindIO (write_each output_path (ass_header style_name)) (\<lambda>_.
     bindIO (ass_events output_path style_name segments) (\<lambda>_.
     returnIO True)))"

definition export_ass :: "segment list \<Rightarrow> pystr \<Rightarrow> pystr \<Rightarrow> bool io" where
  "export_ass segments output_path style_name =
     try_except ''Error exporting ASS: '' (ass_body segments output_path style_name)"

subsection \<open>Plain text\<close>

definition fmt_2f :: "pyfloat \<Rightarrow> pystr" where
  \<comment> \<open>\<open>f"{x:.2f}"\<close>: two decimals of the exact value, ties to even\<close>
  "fmt_2f x =
     (case x of
        NaN \<Rightarrow> lit ''nan''
      | PosInf \<Rightarrow> lit ''inf''
      | NegInf \<Rightarrow> lit ''-inf''
      | NegZero \<Rightarrow> lit ''-0.00''
      | Finite q \<Rightarrow>
          (let n = round_half_even (\<bar>q\<bar> * 100)
           in lit ((if q < 0 then ''-'' else []) @ digits (nat (n div 100)) @ ''.'')
              @ fmt_0d 2 (n mod 100)))"

fun txt_lines :: "pystr \<Rightarrow> bool \<Rightarrow> segment list \<Rightarrow> unit io" where
  "txt_lines path include_timestamps [] = returnIO ()"
| "txt_lines path include_timestamps (seg # segments) =
     bindIO
       (if include_timestamps
        then let timestamp = lit ''['' @ fmt_2f (seg_start seg) @ lit ''s - ''
                               @ fmt_2f (seg_end seg) @ lit ''s]''
             in write_text path (timestamp @ lit '' '' @ seg_text seg @ [10])
        else write_text path (seg_text seg @ [10]))
       (\<lambda>_. txt_lines path include_timestamps segments)"

definition txt_body :: "segment list \<Rightarrow> pystr \<Rightarrow> bool \<Rightarrow> bool io" where
  \<comment> \<open>the \<open>try\<close> block of \<open>export_txt\<close>\<close>
  "txt_body segments output_path include_timestamps =
     bindIO (open_w output_path) (\<lambda>_.
     bindIO (txt_lines output_path include_timestamps segments) (\<lambda>_.
     returnIO True))"

definition export_txt :: "segment list \<Rightarrow> pystr \<Rightarrow> bool \<Rightarrow> bool io" where
  "export_txt segments output_path include_timestamps =
     try_except ''Error exporting TXT: '' (txt_body segments output_path include_timestamps)"

subsection \<open>FCPXML\<close>

text \<open>
  An \<open>ElementTree\<close> element: tag, attributes in insertion order, text, children.
\<close>

datatype xml =
  Element (tag: pystr) (attrib: "(pystr \<times> pystr) list") (text_of: "pystr option")
    (children: "xml list")

fun float_max :: "pyfloat \<Rightarrow> pyfloat list \<Rightarrow> pyfloat" where
  \<comment> \<open>\<open>max\<close> over a non-empty iterable: the running maximum is replaced by a greater item\<close>
  "float_max m [] = m"
| "float_max m (x # xs) = float_max (if float_gt x m then x else m) xs"

definition title_element :: "pyfloat \<Rightarrow> int \<Rightarrow> segment \<Rightarrow> exn + xml" where
  "title_element fps i seg =
     bindE (py_int (float_mul (seg_start seg) fps)) (\<lambda>start_frames.
     bindE (py_int (float_mul (float_sub (seg_end seg) (seg_start seg)) fps)) (\<lambda>frames.
       let duration_frames = max 1 frames
       in bindE (py_int fps) (\<lambda>int_fps.
            Inr (Element (lit ''title'')
                  [(lit ''ref'', lit ''r2''),
                   (lit ''name'', [0x5B57, 0x5E55, 0x20] @ str_int i),
                   (lit ''offset'', str_int start_frames @ lit ''/'' @ str_int int_fps @ lit ''s''),
                   (lit ''duration'',
                      str_int duration_frames @ lit ''/'' @ str_int int_fps @ lit ''s''),
                   (lit ''start'', lit ''3600s'')]
                  None
                  [Element (lit ''text'') [] None
                     [Element (lit ''text-style-def'') [(lit ''id'', lit ''ts'' @ str_int i)] None
                        [Element (lit ''text-style'')
                           [(lit ''font'', lit ''PingFang TC''),
                            (lit ''fontSize'', lit ''60''),
                            (lit ''fontColor'', lit ''1 1 1 1''),
                            (lit ''bold'', lit ''0''),
                            (lit ''alignment'', lit ''center'')]
                           None []],
                      Element (lit ''text-style'') [(lit ''ref'', lit ''ts'' @ str_int i)]
                        (Some (seg_text seg)) []]]))))"

fun title_elements :: "pyfloat \<Rightarrow> int \<Rightarrow> segment list \<Rightarrow> exn + xml list" where
  "title_elements fps i [] = Inr []"
| "title_elements fps i (seg # segments) =
     bindE (title_element fps i seg) (\<lambda>title.
     bindE (title_elements fps (i + 1) segments) (\<lambda>titles.
       Inr (title # titles)))"

definition fcpxml_tree :: "segment list \<Rightarrow> pyfloat option \<Rightarrow> pyfloat \<Rightarrow> exn + xml" where
  "fcpxml_tree segments video_duration fps =
     (let video_duration =
            (case video_duration of
               Some d \<Rightarrow> d
             | None \<Rightarrow>
                 (case segments of
                    seg # rest \<Rightarrow> float_add (float_max (seg_end seg) (map seg_end rest)) (Finite 1)
                  | [] \<Rightarrow> Finite 60))
      in bindE (py_int (float_mul video_duration fps)) (\<lambda>total_frames.
         bindE (py_int fps) (\<lambda>int_fps.
         bindE (title_elements fps 1 segments) (\<lambda>titles.
           Inr (Element (lit ''fcpxml'') [(lit ''version'', lit ''1.10'')] None
                 [Element (lit ''resources'') [] None
                    [Element (lit ''format'')
                       [(lit ''id'', lit ''r1''),
                        (lit ''name'', lit ''FFVideoFormat1080p30''),
                        (lit ''frameDuration'', lit ''1/'' @ str_int int_fps @ lit ''s''),
                        (lit ''width'', lit ''1920''),
                        (lit ''height'', lit ''1080'')]
                       None [],
                     Element (lit ''effect'')
                       [(lit ''id'', lit ''r2''),
                        (lit ''name'', lit ''Basic Title''),
                        (lit ''uid'', lit ''.../Titles.localized/Bumper:Opener.localized/''
                           @ lit ''Basic Title.localized/Basic Title.moti'')]
                       None []],
                  Element (lit ''library'') [] None
                    [Element (lit ''event'')
                       [(lit ''name'', lit ''Canto-beats '' @ [0x5B57, 0x5E55, 0x532F, 0x51FA])]
                       None
                       [Element (lit ''project'') [(lit ''name'', [0x5B57, 0x5E55])] None
                          [Element (lit ''sequence'')
                             [(lit ''format'', lit ''r1''),
                              (lit ''duration'',
                                 str_int total_frames @ lit ''/'' @ str_int int_fps @ lit ''s''),
                              (lit ''tcStart'', lit ''0s''),
                              (lit ''tcFormat'', lit ''NDF''),
                              (lit ''audioLayout'', lit ''stereo''),
                              (lit ''audioRate'', lit ''48k'')]
                             None
                             [Element (lit ''spine'') [] None titles]]]]])))))"

text \<open>
  \<open>ET.tostring\<close>, \<open>minidom.parseString\<close> and \<open>toprettyxml\<close> belong to the standard library:
  their composition, from the tree to the bytes written, is the parameter \<open>toprettyxml\<close>;
  \<open>None\<close> stands for a tree they reject (text that is no XML character data), recorded as
  an \<open>ExpatError\<close>.
\<close>

definition fcpxml_body ::
    "(xml \<Rightarrow> string option) \<Rightarrow> segment list \<Rightarrow> pystr \<Rightarrow> pyfloat option \<Rightarrow> pyfloat \<Rightarrow> bool io" where
  \<comment> \<open>the \<open>try\<close> block of \<open>export_fcpxml\<close>\<close>
  "fcpxml_body toprettyxml segments output_path video_duration fps =
     bindIO (liftE (fcpxml_tree segments video_duration fps)) (\<lambda>fcpxml.
     bindIO (liftE (case toprettyxml fcpxml of None \<Rightarrow> Inl ExpatError | Some b \<Rightarrow> Inr b))
       (\<lambda>pretty_xml.
     bindIO (open_w output_path) (\<lambda>_.
     bindIO (write_bytes output_path pretty_xml) (\<lambda>_.
     returnIO True))))"

definition export_fcpxml ::
    "(xml \<Rightarrow> string option) \<Rightarrow> segment list \<Rightarrow> pystr \<Rightarrow> pyfloat option \<Rightarrow> pyfloat \<Rightarrow> bool io" where
  "export_fcpxml toprettyxml segments output_path video_duration fps =
     try_except ''Error exporting FCPXML: ''
       (fcpxml_body toprettyxml segments output_path video_duration fps)"

text \<open>The elements of a document, in document order, and the \<open>title\<close> elements among them.\<close>

fun descendants :: "xml \<Rightarrow> xml list" where
  "descendants (Element t a x cs) = Element t a x cs # concat (map descendants cs)"

definition titles_of :: "xml \<Rightarrow> xml list" where
  "titles_of doc = filter (\<lambda>e. tag e = lit ''title'') (descendants doc)"

section \<open>StyleProcessor: the AI translation stages\<close>

subsection \<open>String methods\<close>

definition isspace :: "nat \<Rightarrow> bool" where
  \<comment> \<open>the code points \<open>str.strip()\<close> removes\<close>
  "isspace c \<longleftrightarrow>
     (0x09 \<le> c \<and> c \<le> 0x0D) \<or> (0x1C \<le> c \<and> c \<le> 0x20) \<or> c = 0x85 \<or> c = 0xA0 \<or>
     c = 0x1680 \<or> (0x2000 \<le> c \<and> c \<le> 0x200A) \<or> c = 0x2028 \<or> c = 0x2029 \<or>
     c = 0x202F \<or> c = 0x205F \<or> c = 0x3000"

definition strip :: "pystr \<Rightarrow> pystr" where
  "strip s = rev (dropWhile isspace (rev (dropWhile isspace s)))"

definition startswith :: "pystr \<Rightarrow> pystr \<Rightarrow> bool" where
  "startswith s prefix \<longleftrightarrow> take (length prefix) s = prefix"

subsection \<open>The processor\<close>

text \<open>
  The fields of \<open>self\<close> the two stages use. \<open>s2t_converter\<close> is \<open>OpenCC('s2hk')\<close>'s \<open>convert\<close>,
  or \<open>None\<close> when OpenCC is not installed; \<open>translation_model\<close> is the MarianMT model's
  \<open>translate\<close> (\<open>None\<close>: it gave nothing). Both belong to other packages. \<open>str.lower\<close>, which
  follows the interpreter's Unicode tables, is the parameter \<open>lower\<close>. Logging is left out.
\<close>

record style_processor =
  s2t_converter :: "(pystr \<Rightarrow> pystr) option"
  translation_cache :: "pystr \<Rightarrow> pystr option"
  translation_model :: "pystr \<Rightarrow> pystr option"

fun remove_prefixes :: "pystr list \<Rightarrow> pystr \<Rightarrow> pystr" where
  \<comment> \<open>\<open>for prefix in prefixes: if result.startswith(prefix): result = result[len(prefix):].strip()\<close>\<close>
  "remove_prefixes [] result = result"
| "remove_prefixes (prefix # prefixes) result =
     remove_prefixes prefixes
       (if startswith result prefix then strip (drop (length prefix) result) else result)"

text \<open>
  Each stage is the excerpt of \<open>_translate_with_ai\<close> that handles the model's answer. It
  gives \<open>Some\<close> of the value its \<open>return\<close> hands to the caller, or \<open>None\<close> when control falls
  through to the code after it, together with the processor it leaves.
\<close>

definition qwen_stage ::
    "(pystr \<Rightarrow> pystr) \<Rightarrow> style_processor \<Rightarrow> pystr \<Rightarrow> pystr option
      \<Rightarrow> pystr option \<times> style_processor" where
  \<comment> \<open>layer 2; \<open>result\<close> is the answer of the Qwen LLM\<close>
  "qwen_stage lower self text result =
     (case result of
        None \<Rightarrow> (None, self)
      | Some result \<Rightarrow>
          if result = [] then (None, self)
          else
            let result = strip result;
                result = remove_prefixes
                  [[0x7E41, 0x9AD4, 0x4E2D, 0x6587, 0xFF1A], [0x7FFB, 0x8B6F, 0xFF1A],
                   [0x7D50, 0x679C, 0xFF1A]] result
            in if result \<noteq> [] \<and> result \<noteq> text
               then
                 let result = (case s2t_converter self of
                                 Some convert \<Rightarrow> convert result
                               | None \<Rightarrow> result)
                 in (Some result,
                     self\<lparr>translation_cache := (translation_cache self)(lower text \<mapsto> result)\<rparr>)
               else (None, self))"

definition marian_stage ::
    "(pystr \<Rightarrow> pystr) \<Rightarrow> style_processor \<Rightarrow> pystr \<Rightarrow> pystr option \<times> style_processor" where
  \<comment> \<open>layer 3, the MarianMT fallback\<close>
  "marian_stage lower self text =
     (case translation_model self text of
        None \<Rightarrow> (None, self)
      | Some result \<Rightarrow>
          if result \<noteq> [] \<and> strip result \<noteq> [] \<and> result \<noteq> text
          then
            let result = (case s2t_converter self of
                            Some convert \<Rightarrow> convert result
                          | None \<Rightarrow> result)
            in (Some result,
                self\<lparr>translation_cache := (translation_cache self)(lower text \<mapsto> result)\<rparr>)
          else (None, self))"

definition ascii_lower :: "pystr \<Rightarrow> pystr" where
  \<comment> \<open>what \<open>str.lower\<close> does to ASCII text\<close>
  "ascii_lower s = map (\<lambda>c. if 0x41 \<le> c \<and> c \<le> 0x5A then c + 0x20 else c) s"

section \<open>The initial prompt of the transcription\<close>

text \<open>
  The configuration is a dict from keys to string values; \<open>transcribe\<close> is the ASR's, seen
  through the arguments it is called with.
\<close>

record transcribe_args =
  audio_path :: pystr
  language :: pystr
  initial_prompt :: "pystr option"

definition base_prompt :: pystr where
  "base_prompt =
     [0x4EE5, 0x4E0B, 0x4FC2, 0x5EE3, 0x6771, 0x8A71, 0x5C0D, 0x767D, 0xFF0C, 0x8ACB, 0x7528,
      0x7CB5, 0x8A9E, 0x53E3, 0x8A9E, 0x5B57, 0x5E55, 0xFF1A, 0x4F62, 0x3001, 0x55BA, 0x3001,
      0x7747, 0x3001, 0x5605, 0x3001, 0x5481, 0x3001, 0x5572, 0x3001, 0x5497, 0x3001, 0x569F,
      0x3001, 0x5187, 0x3001, 0x8AD7, 0x3001, 0x5514, 0x3001, 0x54A9, 0x3001, 0x4E5C, 0x3001,
      0x9EDE, 0x3001, 0x908A, 0x3001, 0x5649, 0x3001, 0x55F0, 0x3001, 0x5462, 0x3001, 0x54CB,
      0x3001, 0x54AA, 0x3001, 0x56C9, 0x3001, 0x558E, 0x3001, 0x5566, 0x3001, 0x35CE, 0x3001,
      0x5416, 0x3002]"

definition config_get :: "(pystr \<Rightarrow> pystr option) \<Rightarrow> pystr \<Rightarrow> pystr \<Rightarrow> pystr" where
  \<comment> \<open>\<open>config.get(key, default)\<close>\<close>
  "config_get config key dflt = (case config key of Some v \<Rightarrow> v | None \<Rightarrow> dflt)"

definition pipeline_transcribe ::
    "(transcribe_args \<Rightarrow> 'r) \<Rightarrow> (pystr \<Rightarrow> pystr option) \<Rightarrow> pystr \<Rightarrow> 'r" where
  \<comment> \<open>\<open>SubtitlePipelineV2\<close>: from reading the custom prompt to the call of the ASR\<close>
  "pipeline_transcribe transcribe config path =
     (let custom_prompt = config_get config (lit ''whisper_custom_prompt'') [];
          initial_prompt =
            (if custom_prompt \<noteq> []
             then Some (base_prompt @ [0x7528, 0x6236, 0x6307, 0x5B9A, 0x8A5E, 0x5F59, 0xFF1A]
                        @ custom_prompt @ [0x3002])
             else None)
      in transcribe \<lparr>audio_path = path, language = lit ''yue'', initial_prompt = initial_prompt\<rparr>)"

definition worker_transcribe ::
    "(transcribe_args \<Rightarrow> 'r) \<Rightarrow> (pystr \<Rightarrow> pystr option) \<Rightarrow> pystr \<Rightarrow> 'r" where
  \<comment> \<open>\<open>TranscribeWorker\<close>: the same steps in the UI's worker\<close>
  "worker_transcribe transcribe config path =
     (let custom_prompt = config_get config (lit ''whisper_custom_prompt'') [];
          initial_prompt =
            (if custom_prompt \<noteq> []
             then Some (base_prompt @ [0x7528, 0x6236, 0x6307, 0x5B9A, 0x8A5E, 0x5F59, 0xFF1A]
                        @ custom_prompt @ [0x3002])
             else None)
      in transcribe \<lparr>audio_path = path, language = lit ''yue'', initial_prompt = initial_prompt\<rparr>)"

section \<open>Properties\<close>

subsection \<open>Laws of the effect combinators\<close>

lemma lit_append: "lit (a @ b) = lit a @ lit b"
  by (simp add: lit_def)

lemma bindIO_liftE_Inr: "bindIO (liftE (Inr x)) f = f x"
  by (rule ext) (simp add: bindIO_def liftE_def)



lemma bindIO_returnIO_right: "bindIO m returnIO = m"
  by (rule ext) (simp add: bindIO_def returnIO_def split: prod.splits sum.splits)

subsection \<open>The timecodes of 1.5 and 3.25 seconds\<close>

text \<open>Both values are binary64 numbers, and so is every intermediate result.\<close>

lemma srt_time_1_5: "format_srt_time (Finite (3 / 2)) = Inr (lit ''00:00:01,500'')"
  by code_simp

lemma srt_time_3_25: "format_srt_time (Finite (13 / 4)) = Inr (lit ''00:00:03,250'')"
  by code_simp

lemma ass_time_1_5: "format_ass_time (Finite (3 / 2)) = Inr (lit ''0:00:01.50'')"
  by code_simp

lemma ass_time_3_25: "format_ass_time (Finite (13 / 4)) = Inr (lit ''0:00:03.25'')"
  by code_simp



text \<open>
  C4. For the same segment the two ASS timecodes are \<open>0:00:01.50\<close> and \<open>0:00:03.25\<close>
  (hour not padded, a period before the centiseconds), and the event loop of
  \<open>export_ass\<close> writes them into the segment's \<open>Dialogue\<close> line.
\<close>

theorem ass_timecodes_exact:
  "format_ass_time (Finite (3 / 2)) = Inr (lit ''0:00:01.50'') \<and>
   format_ass_time (Finite (13 / 4)) = Inr (lit ''0:00:03.25'') \<and>
   ass_events path style_name
       [\<lparr>seg_start = Finite (3 / 2), seg_end = Finite (13 / 4), seg_text = t\<rparr>] =
     write_text path
       (lit ''Dialogue: 0,'' @ lit ''0:00:01.50'' @ lit '','' @ lit ''0:00:03.25'' @ lit '',''
        @ style_name @ lit '',,0,0,0,,'' @ replace_char 10 (lit [CHR 0x5C, CHR ''N'']) t @ [10])"
  by (simp add: ass_time_1_5 ass_time_3_25 bindIO_liftE_Inr bindIO_returnIO_right)

subsection \<open>The sub-second field\<close>

lemma bindE_Inr_iff: "bindE m f = Inr y \<longleftrightarrow> (\<exists>x. m = Inr x \<and> f x = Inr y)"
  by (cases m) (simp_all add: bindE_def)

lemma of_char_digit_char: "d < 10 \<Longrightarrow> of_char (digit_char d) = (48 + d :: nat)"
  by (simp add: digit_char_def)

lemma set_lit_digits: "set (lit (digits n)) \<subseteq> {48..57}"
proof (induction n rule: digits.induct)
  case (1 n)
  show ?case
  proof (cases "n < 10")
    case True
    then show ?thesis
      by (subst digits.simps) (simp add: lit_def of_char_digit_char)
  next
    case False
    have "n mod 10 < 10" by simp
    then have "of_char (digit_char (n mod 10)) \<in> {48..57::nat}"
      by (simp add: of_char_digit_char)
    with False 1 show ?thesis
      by (subst digits.simps) (simp add: lit_def)
  qed
qed

lemma digits_chars: "c \<in> set (digits n) \<Longrightarrow> 48 \<le> (of_char c :: nat) \<and> (of_char c :: nat) \<le> 57"
  using set_lit_digits [of n] by (auto simp: lit_def)

lemma set_fmt_0d: "set (fmt_0d w n) \<subseteq> insert 45 {48..57}"
  by (auto simp: fmt_0d_def Let_def lit_def dest: digits_chars)

lemma set_str_int: "set (str_int n) \<subseteq> insert 45 {48..57}"
  by (auto simp: str_int_def lit_def dest: digits_chars)

lemma trunc_bounds: "\<bar>of_int (trunc p)\<bar> \<le> \<bar>p\<bar> \<and> \<bar>p\<bar> < \<bar>of_int (trunc p) :: rat\<bar> + 1"
  unfolding trunc_def by (cases "0 \<le> p") (simp_all; linarith)+

lemma int_to_float_1000: "int_to_float 1000 = Inr (Finite 1000)" by code_simp
lemma int_to_float_100: "int_to_float 100 = Inr (Finite 100)" by code_simp

lemma py_int_Inr: "py_int x = Inr m \<Longrightarrow> \<exists>p. (x = Finite p \<and> m = trunc p) \<or> (x = NegZero \<and> m = 0)"
  by (cases x) (auto simp: py_int_def)

lemma subsecond_Inr:
  assumes "subsecond s scale = Inr m"
  shows "\<exists>whole wf sf prod. py_int s = Inr whole \<and> int_to_float whole = Inr wf \<and>
           int_to_float scale = Inr sf \<and>
           float_mul (float_sub s wf) sf = Finite prod \<and> m = trunc prod"
proof -
  from assms obtain whole wf sf where a: "py_int s = Inr whole" "int_to_float whole = Inr wf"
      "int_to_float scale = Inr sf"
    and b: "py_int (float_mul (float_sub s wf) sf) = Inr m"
    by (auto simp: subsecond_def bindE_Inr_iff)
  from py_int_Inr [OF b] consider p where "float_mul (float_sub s wf) sf = Finite p" "m = trunc p"
    | "float_mul (float_sub s wf) sf = NegZero"
    by auto
  then show ?thesis
  proof cases
    case 1
    with a show ?thesis by blast
  next
    case 2
    have "float_mul x y \<noteq> NegZero" for x y
      by (cases x; cases y) (auto simp: round_binary64_def Let_def)
    with 2 show ?thesis by simp
  qed
qed


lemma srt_time_truncates: "format_srt_time (Finite (4095 / 2048)) = Inr (lit ''00:00:01,999'')"
  by code_simp

lemma ass_time_truncates: "format_ass_time (Finite (255 / 128)) = Inr (lit ''0:00:01.99'')"
  by code_simp

lemma not_in_fmt_0d: "c \<noteq> 45 \<Longrightarrow> c < 48 \<or> 57 < c \<Longrightarrow> c \<notin> set (fmt_0d w n)"
  using set_fmt_0d [of w n] by auto

lemma not_in_str_int: "c \<noteq> 45 \<Longrightarrow> c < 48 \<or> 57 < c \<Longrightarrow> c \<notin> set (str_int n)"
  using set_str_int [of n] by auto

lemma srt_field:
  assumes "format_srt_time s = Inr out"
  shows "\<exists>hms whole wf prod. out = hms @ lit '','' @ fmt_0d 3 (trunc prod) \<and> 44 \<notin> set hms \<and>
           py_int s = Inr whole \<and> int_to_float whole = Inr wf \<and>
           float_mul (float_sub s wf) (Finite 1000) = Finite prod"
proof -
  from assms obtain a b c m where
    "out = fmt_0d 2 a @ lit '':'' @ fmt_0d 2 b @ lit '':'' @ fmt_0d 2 c @ lit '','' @ fmt_0d 3 m"
    and m: "subsecond s 1000 = Inr m"
    by (auto simp: format_srt_time_def bindE_Inr_iff Let_def)
  moreover define hms where "hms = fmt_0d 2 a @ lit '':'' @ fmt_0d 2 b @ lit '':'' @ fmt_0d 2 c"
  ultimately have out: "out = hms @ lit '','' @ fmt_0d 3 m"
    by simp
  have "44 \<notin> set hms"
    by (auto simp: hms_def lit_def not_in_fmt_0d)
  moreover from subsecond_Inr [OF m] int_to_float_1000 obtain whole wf prod where
    "py_int s = Inr whole" "int_to_float whole = Inr wf"
    "float_mul (float_sub s wf) (Finite 1000) = Finite prod" "m = trunc prod"
    by auto
  ultimately show ?thesis using out by blast
qed

lemma ass_field:
  assumes "format_ass_time s = Inr out"
  shows "\<exists>hms whole wf prod. out = hms @ lit ''.'' @ fmt_0d 2 (trunc prod) \<and> 46 \<notin> set hms \<and>
           py_int s = Inr whole \<and> int_to_float whole = Inr wf \<and>
           float_mul (float_sub s wf) (Finite 100) = Finite prod"
proof -
  from assms obtain a b c m where
    "out = str_int a @ lit '':'' @ fmt_0d 2 b @ lit '':'' @ fmt_0d 2 c @ lit ''.'' @ fmt_0d 2 m"
    and m: "subsecond s 100 = Inr m"
    by (auto simp: format_ass_time_def bindE_Inr_iff Let_def)
  moreover define hms where "hms = str_int a @ lit '':'' @ fmt_0d 2 b @ lit '':'' @ fmt_0d 2 c"
  ultimately have out: "out = hms @ lit ''.'' @ fmt_0d 2 m"
    by simp
  have "46 \<notin> set hms"
    by (auto simp: hms_def lit_def not_in_fmt_0d not_in_str_int)
  moreover from subsecond_Inr [OF m] int_to_float_100 obtain whole wf prod where
    "py_int s = Inr whole" "int_to_float whole = Inr wf"
    "float_mul (float_sub s wf) (Finite 100) = Finite prod" "m = trunc prod"
    by auto
  ultimately show ?thesis using out by blast
qed

text \<open>
  C2. Whenever \<open>_format_srt_time\<close> or \<open>_format_ass_time\<close> returns a timecode for \<open>seconds\<close>,
  the timecode ends in the separator (the only comma, respectively the last period)
  followed by the zero-padded integer \<open>int((seconds - int(seconds)) * scale)\<close>, with scale 1000
  for SRT and 100 for ASS: the float product truncated toward zero, so the field's
  magnitude never exceeds the product's and misses it by less than one. 1 + 2047/2048
  seconds gives \<open>,999\<close>, where rounding to nearest would have carried to 1000; 1 + 127/128
  seconds gives \<open>.99\<close>.
\<close>

theorem subsecond_field_truncates:
  "(format_srt_time s = Inr out \<longrightarrow>
      (\<exists>hms whole wf prod.
         out = hms @ lit '','' @ fmt_0d 3 (trunc prod) \<and> 44 \<notin> set hms \<and>
         py_int s = Inr whole \<and> int_to_float whole = Inr wf \<and>
         float_mul (float_sub s wf) (Finite 1000) = Finite prod \<and>
         \<bar>of_int (trunc prod)\<bar> \<le> \<bar>prod\<bar> \<and> \<bar>prod\<bar> < \<bar>of_int (trunc prod)\<bar> + 1)) \<and>
   (format_ass_time s = Inr out' \<longrightarrow>
      (\<exists>hms whole wf prod.
         out' = hms @ lit ''.'' @ fmt_0d 2 (trunc prod) \<and> 46 \<notin> set hms \<and>
         py_int s = Inr whole \<and> int_to_float whole = Inr wf \<and>
         float_mul (float_sub s wf) (Finite 100) = Finite prod \<and>
         \<bar>of_int (trunc prod)\<bar> \<le> \<bar>prod\<bar> \<and> \<bar>prod\<bar> < \<bar>of_int (trunc prod)\<bar> + 1)) \<and>
   format_srt_time (Finite (4095 / 2048)) = Inr (lit ''00:00:01,999'') \<and>
   format_ass_time (Finite (255 / 128)) = Inr (lit ''0:00:01.99'')"
proof (intro conjI impI)
  assume "format_srt_time s = Inr out"
  from srt_field [OF this] trunc_bounds
  show "\<exists>hms whole wf prod.
         out = hms @ lit '','' @ fmt_0d 3 (trunc prod) \<and> 44 \<notin> set hms \<and>
         py_int s = Inr whole \<and> int_to_float whole = Inr wf \<and>
         float_mul (float_sub s wf) (Finite 1000) = Finite prod \<and>
         \<bar>of_int (trunc prod)\<bar> \<le> \<bar>prod\<bar> \<and> \<bar>prod\<bar> < \<bar>of_int (trunc prod)\<bar> + 1"
    by blast
next
  assume "format_ass_time s = Inr out'"
  from ass_field [OF this] trunc_bounds
  show "\<exists>hms whole wf prod.
         out' = hms @ lit ''.'' @ fmt_0d 2 (trunc prod) \<and> 46 \<notin> set hms \<and>
         py_int s = Inr whole \<and> int_to_float whole = Inr wf \<and>
         float_mul (float_sub s wf) (Finite 100) = Finite prod \<and>
         \<bar>of_int (trunc prod)\<bar> \<le> \<bar>prod\<bar> \<and> \<bar>prod\<bar> < \<bar>of_int (trunc prod)\<bar> + 1"
    by blast
qed (rule srt_time_truncates ass_time_truncates)+

text \<open>The theorem at 1.5 seconds.\<close>

theorem subsecond_field_truncates_witness:
  "format_srt_time (Finite (3 / 2)) = Inr (lit ''00:00:01,500'') \<and>
   format_ass_time (Finite (3 / 2)) = Inr (lit ''0:00:01.50'') \<and>
   (\<exists>hms whole wf prod.
      lit ''00:00:01,500'' = hms @ lit '','' @ fmt_0d 3 (trunc prod) \<and> 44 \<notin> set hms \<and>
      py_int (Finite (3 / 2)) = Inr whole \<and> int_to_float whole = Inr wf \<and>
      float_mul (float_sub (Finite (3 / 2)) wf) (Finite 1000) = Finite prod \<and>
      \<bar>of_int (trunc prod)\<bar> \<le> \<bar>prod\<bar> \<and> \<bar>prod\<bar> < \<bar>of_int (trunc prod)\<bar> + 1) \<and>
   (\<exists>hms whole wf prod.
      lit ''0:00:01.50'' = hms @ lit ''.'' @ fmt_0d 2 (trunc prod) \<and> 46 \<notin> set hms \<and>
      py_int (Finite (3 / 2)) = Inr whole \<and> int_to_float whole = Inr wf \<and>
      float_mul (float_sub (Finite (3 / 2)) wf) (Finite 100) = Finite prod \<and>
      \<bar>of_int (trunc prod)\<bar> \<le> \<bar>prod\<bar> \<and> \<bar>prod\<bar> < \<bar>of_int (trunc prod)\<bar> + 1)"
  using subsecond_field_truncates [of "Finite (3 / 2)" "lit ''00:00:01,500''" "lit ''0:00:01.50''"]
    srt_time_1_5 ass_time_1_5
  by simp

subsection \<open>The title elements of the FCPXML document\<close>

lemma title_elements_nth:
  "title_elements fps i segs = Inr ts \<Longrightarrow>
     length ts = length segs \<and> (\<forall>k<length segs. title_element fps (i + int k) (segs ! k) = Inr (ts ! k))"
proof (induction segs arbitrary: i ts)
  case Nil
  then show ?case by simp
next
  case (Cons seg segs)
  from Cons.prems obtain t ts' where t: "title_element fps i seg = Inr t"
    and ts': "title_elements fps (i + 1) segs = Inr ts'" and ts: "ts = t # ts'"
    by (auto simp: bindE_Inr_iff)
  from Cons.IH [OF ts'] have len: "length ts' = length segs"
    and nth: "\<And>k. k < length segs \<Longrightarrow> title_element fps (i + 1 + int k) (segs ! k) = Inr (ts' ! k)"
    by auto
  show ?case
  proof (intro conjI allI impI)
    show "length ts = length (seg # segs)" using len ts by simp
  next
    fix k assume "k < length (seg # segs)"
    then show "title_element fps (i + int k) ((seg # segs) ! k) = Inr (ts ! k)"
      using t ts nth [of "k - 1"] by (cases k) (simp_all add: algebra_simps)
  qed
qed

lemma title_element_titles:
  "title_element fps i seg = Inr t \<Longrightarrow> titles_of t = [t]"
  by (auto simp: title_element_def bindE_Inr_iff Let_def titles_of_def lit_def)

lemma titles_of_titles:
  "\<forall>t \<in> set ts. titles_of t = [t] \<Longrightarrow>
     filter (\<lambda>e. tag e = lit ''title'') (concat (map descendants ts)) = ts"
  by (induction ts) (simp_all add: titles_of_def)

lemma fcpxml_tree_titles:
  assumes "fcpxml_tree segs vd fps = Inr doc"
  shows "title_elements fps 1 segs = Inr (titles_of doc)"
proof -
  from assms obtain ts where ts: "title_elements fps 1 segs = Inr ts"
    and doc: "titles_of doc = filter (\<lambda>e. tag e = lit ''title'') (concat (map descendants ts))"
    by (auto simp: fcpxml_tree_def bindE_Inr_iff Let_def titles_of_def lit_def)
  have "\<forall>t \<in> set ts. titles_of t = [t]"
  proof
    fix t assume "t \<in> set ts"
    then obtain k where "k < length ts" "ts ! k = t"
      by (auto simp: in_set_conv_nth)
    with title_elements_nth [OF ts] have "title_element fps (1 + int k) (segs ! k) = Inr t"
      by auto
    then show "titles_of t = [t]" by (rule title_element_titles)
  qed
  with titles_of_titles doc ts show ?thesis by simp
qed


lemma title_element_attrs:
  assumes "title_element fps i seg = Inr t"
  shows "\<exists>start_frames frames int_fps.
           py_int (float_mul (seg_start seg) fps) = Inr start_frames \<and>
           py_int (float_mul (float_sub (seg_end seg) (seg_start seg)) fps) = Inr frames \<and>
           py_int fps = Inr int_fps \<and>
           map_of (attrib t) (lit ''offset'')
             = Some (str_int start_frames @ lit ''/'' @ str_int int_fps @ lit ''s'') \<and>
           map_of (attrib t) (lit ''duration'')
             = Some (str_int (max 1 frames) @ lit ''/'' @ str_int int_fps @ lit ''s'')"
  using assms
  by (auto simp: title_element_def bindE_Inr_iff Let_def lit_def)

text \<open>
  C10. In the document \<open>export_fcpxml\<close> builds there is one \<open>title\<close> element per segment,
  in order; the \<open>k\<close>-th has the offset \<open>int(start * fps)\<close> over \<open>int(fps)\<close> and the
  duration \<open>max(1, int((end - start) * fps))\<close> over \<open>int(fps)\<close>. The duration is at least one
  frame, and exactly one frame when the span covers less than a frame.
\<close>

theorem fcpxml_title_min_one_frame:
  assumes "fcpxml_tree segments video_duration fps = Inr doc"
  shows "length (titles_of doc) = length segments \<and>
         (\<forall>k<length segments.
            \<exists>start_frames frames int_fps.
              py_int (float_mul (seg_start (segments ! k)) fps) = Inr start_frames \<and>
              py_int (float_mul (float_sub (seg_end (segments ! k)) (seg_start (segments ! k))) fps)
                = Inr frames \<and>
              py_int fps = Inr int_fps \<and>
              map_of (attrib (titles_of doc ! k)) (lit ''offset'')
                = Some (str_int start_frames @ lit ''/'' @ str_int int_fps @ lit ''s'') \<and>
              map_of (attrib (titles_of doc ! k)) (lit ''duration'')
                = Some (str_int (max 1 frames) @ lit ''/'' @ str_int int_fps @ lit ''s'') \<and>
              1 \<le> max 1 frames \<and>
              (frames < 1 \<longrightarrow> max 1 frames = 1))"
proof -
  note ts = title_elements_nth [OF fcpxml_tree_titles [OF assms]]
  show ?thesis
  proof (intro conjI allI impI)
    show "length (titles_of doc) = length segments" using ts by simp
  next
    fix k assume "k < length segments"
    with ts have "title_element fps (1 + int k) (segments ! k) = Inr (titles_of doc ! k)"
      by simp
    from title_element_attrs [OF this]
    show "\<exists>start_frames frames int_fps.
              py_int (float_mul (seg_start (segments ! k)) fps) = Inr start_frames \<and>
              py_int (float_mul (float_sub (seg_end (segments ! k)) (seg_start (segments ! k))) fps)
                = Inr frames \<and>
              py_int fps = Inr int_fps \<and>
              map_of (attrib (titles_of doc ! k)) (lit ''offset'')
                = Some (str_int start_frames @ lit ''/'' @ str_int int_fps @ lit ''s'') \<and>
              map_of (attrib (titles_of doc ! k)) (lit ''duration'')
                = Some (str_int (max 1 frames) @ lit ''/'' @ str_int int_fps @ lit ''s'') \<and>
              1 \<le> max 1 frames \<and>
              (frames < 1 \<longrightarrow> max 1 frames = 1)"
      by auto
  qed
qed

lemma zero_span_frames:
  "py_int (float_mul (Finite 2) (Finite 30)) = Inr 60"
  "py_int (float_mul (float_sub (Finite 2) (Finite 2)) (Finite 30)) = Inr 0"
  "py_int (Finite 30) = Inr 30"
  by code_simp+

lemma zero_span_total:
  "py_int (float_mul (float_add (float_max (Finite 2) []) (Finite 1)) (Finite 30)) = Inr 90"
  by code_simp

lemma zero_span_tree:
  "\<exists>doc. fcpxml_tree [\<lparr>seg_start = Finite 2, seg_end = Finite 2, seg_text = lit ''hi''\<rparr>] None
      (Finite 30) = Inr doc"
  by (simp add: fcpxml_tree_def title_element_def bindE_def zero_span_total zero_span_frames
      del: float_mul.simps float_sub.simps float_add.simps float_max.simps)

lemma zero_span_strings:
  "str_int 60 @ lit ''/'' @ str_int 30 @ lit ''s'' = lit ''60/30s''"
  "str_int 1 @ lit ''/'' @ str_int 30 @ lit ''s'' = lit ''1/30s''"
  by code_simp+

text \<open>A segment of zero duration at 2 seconds, 30 frames per second.\<close>

theorem fcpxml_title_min_one_frame_witness:
  "\<exists>doc. fcpxml_tree [\<lparr>seg_start = Finite 2, seg_end = Finite 2, seg_text = lit ''hi''\<rparr>] None
            (Finite 30) = Inr doc \<and>
         length (titles_of doc) = 1 \<and>
         map_of (attrib (titles_of doc ! 0)) (lit ''offset'') = Some (lit ''60/30s'') \<and>
         map_of (attrib (titles_of doc ! 0)) (lit ''duration'') = Some (lit ''1/30s'')"
proof -
  let ?seg = "\<lparr>seg_start = Finite 2, seg_end = Finite 2, seg_text = lit ''hi''\<rparr>"
  from zero_span_tree obtain doc where doc: "fcpxml_tree [?seg] None (Finite 30) = Inr doc"
    by blast
  note inst = fcpxml_title_min_one_frame [OF doc]
  from inst have len: "length (titles_of doc) = 1"
    by simp
  from inst [THEN conjunct2, rule_format, of 0]
  obtain start_frames frames int_fps where
    "py_int (float_mul (seg_start ([?seg] ! 0)) (Finite 30)) = Inr start_frames"
    "py_int (float_mul (float_sub (seg_end ([?seg] ! 0)) (seg_start ([?seg] ! 0))) (Finite 30))
       = Inr frames"
    "py_int (Finite 30) = Inr int_fps"
    and offset: "map_of (attrib (titles_of doc ! 0)) (lit ''offset'')
       = Some (str_int start_frames @ lit ''/'' @ str_int int_fps @ lit ''s'')"
    and duration: "map_of (attrib (titles_of doc ! 0)) (lit ''duration'')
       = Some (str_int (max 1 frames) @ lit ''/'' @ str_int int_fps @ lit ''s'')"
    by auto
  then have "start_frames = 60" "frames = 0" "int_fps = 30"
    by (simp_all only: nth_Cons_0 segment.simps zero_span_frames sum.inject)
  with offset duration len
  have "length (titles_of doc) = 1 \<and>
        map_of (attrib (titles_of doc ! 0)) (lit ''offset'') = Some (lit ''60/30s'') \<and>
        map_of (attrib (titles_of doc ! 0)) (lit ''duration'') = Some (lit ''1/30s'')"
    by (simp add: zero_span_strings del: One_nat_def)
  with doc show ?thesis by blast
qed

subsection \<open>What the exports return and what they raise\<close>

lemma bindE_Inl_iff: "bindE m f = Inl e \<longleftrightarrow> m = Inl e \<or> (\<exists>x. m = Inr x \<and> f x = Inl e)"
  by (cases m) (simp_all add: bindE_def)

lemma bindIO_Inl_iff:
  "bindIO m f w = (Inl e, w') \<longleftrightarrow>
     m w = (Inl e, w') \<or> (\<exists>x w1. m w = (Inr x, w1) \<and> f x w1 = (Inl e, w'))"
  by (cases "m w") (auto simp: bindIO_def split: sum.splits)

lemma bindIO_Inr_iff:
  "bindIO m f w = (Inr y, w') \<longleftrightarrow> (\<exists>x w1. m w = (Inr x, w1) \<and> f x w1 = (Inr y, w'))"
  by (cases "m w") (auto simp: bindIO_def split: sum.splits)

lemma liftE_iff: "liftE r w = (x, w') \<longleftrightarrow> r = x \<and> w' = w"
  by (auto simp: liftE_def)

lemma returnIO_iff: "returnIO r w = (x, w') \<longleftrightarrow> x = Inr r \<and> w' = w"
  by (auto simp: returnIO_def)

text \<open>No modelled operation raises anything but an \<open>Exception\<close>.\<close>

lemma py_int_exn: "py_int x = Inl e \<Longrightarrow> is_Exception e"
  by (cases x) (auto simp: py_int_def)

lemma int_to_float_exn: "int_to_float n = Inl e \<Longrightarrow> is_Exception e"
  by (auto simp: int_to_float_def split: pyfloat.splits)

lemma timedelta_exn: "timedelta_microseconds s = Inl e \<Longrightarrow> is_Exception e"
  by (cases s) (auto simp: timedelta_microseconds_def Let_def split: if_splits)

lemma total_seconds_exn: "total_seconds us = Inl e \<Longrightarrow> is_Exception e"
  by (auto simp: total_seconds_def int_truediv_def split: pyfloat.splits)

lemma subsecond_exn: "subsecond s scale = Inl e \<Longrightarrow> is_Exception e"
  by (auto simp: subsecond_def bindE_Inl_iff dest: py_int_exn int_to_float_exn)

lemma format_srt_time_exn: "format_srt_time s = Inl e \<Longrightarrow> is_Exception e"
  by (auto simp: format_srt_time_def bindE_Inl_iff Let_def
      dest: py_int_exn timedelta_exn total_seconds_exn subsecond_exn)

lemma format_ass_time_exn: "format_ass_time s = Inl e \<Longrightarrow> is_Exception e"
  by (auto simp: format_ass_time_def bindE_Inl_iff Let_def
      dest: py_int_exn timedelta_exn total_seconds_exn subsecond_exn)

lemma utf8_encode_exn: "utf8_encode s = Inl e \<Longrightarrow> is_Exception e"
  by (induction s) (auto simp: bindE_Inl_iff utf8_char_def split: if_splits)

lemma open_w_exn: "open_w p w = (Inl e, w') \<Longrightarrow> is_Exception e"
  by (auto simp: open_w_def split: if_splits)

lemma write_bytes_exn: "write_bytes p bs w = (Inl e, w') \<Longrightarrow> is_Exception e"
  by (auto simp: write_bytes_def split: if_splits)

lemma write_text_exn: "write_text p s w = (Inl e, w') \<Longrightarrow> is_Exception e"
  by (auto simp: write_text_def bindIO_Inl_iff liftE_iff encode_text_def
      dest: utf8_encode_exn write_bytes_exn)

lemma write_each_exn: "write_each p ss w = (Inl e, w') \<Longrightarrow> is_Exception e"
  by (induction ss arbitrary: w) (auto simp: bindIO_Inl_iff returnIO_iff dest: write_text_exn)

lemma srt_entries_exn: "srt_entries p i segs w = (Inl e, w') \<Longrightarrow> is_Exception e"
  by (induction segs arbitrary: i w)
    (auto simp: bindIO_Inl_iff returnIO_iff liftE_iff dest: write_text_exn format_srt_time_exn)

lemma ass_events_exn: "ass_events p st segs w = (Inl e, w') \<Longrightarrow> is_Exception e"
  by (induction segs arbitrary: w)
    (auto simp: bindIO_Inl_iff returnIO_iff liftE_iff Let_def dest: write_text_exn format_ass_time_exn)

lemma txt_lines_exn: "txt_lines p ts segs w = (Inl e, w') \<Longrightarrow> is_Exception e"
  by (induction segs arbitrary: w)
    (auto simp: bindIO_Inl_iff returnIO_iff Let_def dest: write_text_exn split: if_splits)

lemma title_element_exn: "title_element fps i seg = Inl e \<Longrightarrow> is_Exception e"
  by (auto simp: title_element_def bindE_Inl_iff Let_def dest: py_int_exn)

lemma title_elements_exn: "title_elements fps i segs = Inl e \<Longrightarrow> is_Exception e"
  by (induction segs arbitrary: i) (auto simp: bindE_Inl_iff dest: title_element_exn)

lemma fcpxml_tree_exn: "fcpxml_tree segs vd fps = Inl e \<Longrightarrow> is_Exception e"
  by (auto simp: fcpxml_tree_def bindE_Inl_iff Let_def dest: py_int_exn title_elements_exn)

lemma srt_body_result: "srt_body segs p w = (r, w') \<Longrightarrow> r = Inr True \<or> (\<exists>e. r = Inl e \<and> is_Exception e)"
  by (cases r)
    (auto simp: srt_body_def bindIO_Inl_iff bindIO_Inr_iff returnIO_iff
      dest: open_w_exn srt_entries_exn)

lemma ass_body_result: "ass_body segs p st w = (r, w') \<Longrightarrow> r = Inr True \<or> (\<exists>e. r = Inl e \<and> is_Exception e)"
  by (cases r)
    (auto simp: ass_body_def bindIO_Inl_iff bindIO_Inr_iff returnIO_iff
      dest: open_w_exn write_each_exn ass_events_exn)

lemma txt_body_result: "txt_body segs p ts w = (r, w') \<Longrightarrow> r = Inr True \<or> (\<exists>e. r = Inl e \<and> is_Exception e)"
  by (cases r)
    (auto simp: txt_body_def bindIO_Inl_iff bindIO_Inr_iff returnIO_iff
      dest: open_w_exn txt_lines_exn)

lemma fcpxml_body_result:
  "fcpxml_body ser segs p vd fps w = (r, w') \<Longrightarrow> r = Inr True \<or> (\<exists>e. r = Inl e \<and> is_Exception e)"
  by (cases r)
    (auto simp: fcpxml_body_def bindIO_Inl_iff bindIO_Inr_iff returnIO_iff liftE_iff
      dest: open_w_exn write_bytes_exn fcpxml_tree_exn split: option.splits)


lemma try_except_result:
  assumes "\<And>r w'. body w = (r, w') \<Longrightarrow> r = Inr True \<or> (\<exists>e. r = Inl e \<and> is_Exception e)"
  shows "try_except msg body w =
           (case body w of
              (Inr _, w') \<Rightarrow> (Inr True, w')
            | (Inl e, w') \<Rightarrow>
                (case print_error w' msg e of
                   None \<Rightarrow> (Inr False, w'\<lparr>stdout := stdout w' @ [(msg, e)]\<rparr>)
                 | Some raised \<Rightarrow> (Inl raised, w')))"
proof (cases "body w")
  case (Pair r w')
  with assms [OF Pair] show ?thesis
    by (auto simp: try_except_def print_message_def bindIO_def returnIO_def split: option.splits)
qed

text \<open>
  Each export returns \<open>True\<close> when its \<open>try\<close> block completes. When the block raises, the
  handler prints: if the \<open>print\<close> succeeds the export returns \<open>False\<close>, and if the \<open>print\<close>
  raises, that exception leaves the export.
\<close>

lemma export_srt_result:
  "export_srt segs p w =
     (case srt_body segs p w of
        (Inr _, w') \<Rightarrow> (Inr True, w')
      | (Inl e, w') \<Rightarrow>
          (case print_error w' ''Error exporting SRT: '' e of
             None \<Rightarrow> (Inr False, w'\<lparr>stdout := stdout w' @ [(''Error exporting SRT: '', e)]\<rparr>)
           | Some raised \<Rightarrow> (Inl raised, w')))"
  unfolding export_srt_def by (rule try_except_result) (rule srt_body_result)

lemma export_ass_result:
  "export_ass segs p st w =
     (case ass_body segs p st w of
        (Inr _, w') \<Rightarrow> (Inr True, w')
      | (Inl e, w') \<Rightarrow>
          (case print_error w' ''Error exporting ASS: '' e of
             None \<Rightarrow> (Inr False, w'\<lparr>stdout := stdout w' @ [(''Error exporting ASS: '', e)]\<rparr>)
           | Some raised \<Rightarrow> (Inl raised, w')))"
  unfolding export_ass_def by (rule try_except_result) (rule ass_body_result)

lemma export_txt_result:
  "export_txt segs p ts w =
     (case txt_body segs p ts w of
        (Inr _, w') \<Rightarrow> (Inr True, w')
      | (Inl e, w') \<Rightarrow>
          (case print_error w' ''Error exporting TXT: '' e of
             None \<Rightarrow> (Inr False, w'\<lparr>stdout := stdout w' @ [(''Error exporting TXT: '', e)]\<rparr>)
           | Some raised \<Rightarrow> (Inl raised, w')))"
  unfolding export_txt_def by (rule try_except_result) (rule txt_body_result)

lemma export_fcpxml_result:
  "export_fcpxml ser segs p vd fps w =
     (case fcpxml_body ser segs p vd fps w of
        (Inr _, w') \<Rightarrow> (Inr True, w')
      | (Inl e, w') \<Rightarrow>
          (case print_error w' ''Error exporting FCPXML: '' e of
             None \<Rightarrow>
               (Inr False, w'\<lparr>stdout := stdout w' @ [(''Error exporting FCPXML: '', e)]\<rparr>)
           | Some raised \<Rightarrow> (Inl raised, w')))"
  unfolding export_fcpxml_def by (rule try_except_result) (rule fcpxml_body_result)

text \<open>A path that cannot be opened makes the block raise \<open>OSError\<close> before anything is written.\<close>

lemma srt_body_refused: "\<not> openable w p \<Longrightarrow> srt_body segs p w = (Inl OSError, w)"
  by (simp add: srt_body_def bindIO_def open_w_def)

lemma ass_body_refused: "\<not> openable w p \<Longrightarrow> ass_body segs p st w = (Inl OSError, w)"
  by (simp add: ass_body_def bindIO_def open_w_def)

lemma txt_body_refused: "\<not> openable w p \<Longrightarrow> txt_body segs p ts w = (Inl OSError, w)"
  by (simp add: txt_body_def bindIO_def open_w_def)

lemma fcpxml_body_refused:
  "fcpxml_tree segs vd fps = Inr doc \<Longrightarrow> ser doc = Some bytes \<Longrightarrow> \<not> openable w p \<Longrightarrow>
     fcpxml_body ser segs p vd fps w = (Inl OSError, w)"
  by (simp add: fcpxml_body_def bindIO_def liftE_def open_w_def)

text \<open>The blocks leave \<open>print\<close>'s behaviour as it was.\<close>

lemma write_bytes_print: "write_bytes p bs w = (r, w') \<Longrightarrow> print_error w' = print_error w"
  by (auto simp: write_bytes_def append_file_def split: if_splits)

lemma write_text_print: "write_text p s w = (r, w') \<Longrightarrow> print_error w' = print_error w"
  by (auto simp: write_text_def bindIO_def liftE_def split: sum.splits dest: write_bytes_print)

lemma open_w_print: "open_w p w = (r, w') \<Longrightarrow> print_error w' = print_error w"
  by (auto simp: open_w_def split: if_splits)

lemma bindIO_print:
  assumes "bindIO m f w = (r, w')"
    and "\<And>x w1. m w = (x, w1) \<Longrightarrow> print_error w1 = print_error w"
    and "\<And>x w1 y w2. m w = (Inr x, w1) \<Longrightarrow> f x w1 = (y, w2) \<Longrightarrow> print_error w2 = print_error w1"
  shows "print_error w' = print_error w"
proof (cases "m w")
  case (Pair x w1)
  show ?thesis
  proof (cases x)
    case (Inl e)
    with Pair assms(1) have "w' = w1" by (simp add: bindIO_def)
    with assms(2) [OF Pair] show ?thesis by simp
  next
    case (Inr v)
    with Pair assms(1) have "f v w1 = (r, w')" by (simp add: bindIO_def)
    with assms(2) [OF Pair] assms(3) [of v w1 r w'] Pair Inr show ?thesis by simp
  qed
qed

lemma write_each_print: "write_each p ss w = (r, w') \<Longrightarrow> print_error w' = print_error w"
proof (induction ss arbitrary: w r w')
  case Nil
  then show ?case by (simp add: returnIO_def)
next
  case (Cons s ss)
  from Cons.prems show ?case
    apply simp
    apply (erule bindIO_print, erule write_text_print)
    apply (erule Cons.IH)
    done
qed

lemma liftE_print: "liftE x w = (r, w') \<Longrightarrow> print_error w' = print_error w"
  by (simp add: liftE_def)

lemma returnIO_print: "returnIO x w = (r, w') \<Longrightarrow> print_error w' = print_error w"
  by (simp add: returnIO_def)

lemma srt_entries_print: "srt_entries p i segs w = (r, w') \<Longrightarrow> print_error w' = print_error w"
proof (induction segs arbitrary: i w r w')
  case Nil
  then show ?case by (simp add: returnIO_def)
next
  case (Cons seg segs)
  from Cons.prems show ?case
    apply simp
    apply (erule bindIO_print, erule write_text_print)
    apply (erule bindIO_print, erule liftE_print)
    apply (erule bindIO_print, erule liftE_print)
    apply (erule bindIO_print, erule write_text_print)
    apply (erule bindIO_print, erule write_text_print)
    apply (erule bindIO_print, erule write_text_print)
    apply (erule Cons.IH)
    done
qed

lemma ass_events_print: "ass_events p st segs w = (r, w') \<Longrightarrow> print_error w' = print_error w"
proof (induction segs arbitrary: w r w')
  case Nil
  then show ?case by (simp add: returnIO_def)
next
  case (Cons seg segs)
  from Cons.prems show ?case
    apply (simp add: Let_def)
    apply (erule bindIO_print, erule liftE_print)
    apply (erule bindIO_print, erule liftE_print)
    apply (erule bindIO_print, erule write_text_print)
    apply (erule Cons.IH)
    done
qed

lemma txt_lines_print: "txt_lines p ts segs w = (r, w') \<Longrightarrow> print_error w' = print_error w"
proof (induction segs arbitrary: w r w')
  case Nil
  then show ?case by (simp add: returnIO_def)
next
  case (Cons seg segs)
  from Cons.prems show ?case
    apply (simp add: Let_def)
    apply (erule bindIO_print)
     apply (auto dest: write_text_print split: if_splits)[1]
    apply (erule Cons.IH)
    done
qed

lemma srt_body_print: "srt_body segs p w = (r, w') \<Longrightarrow> print_error w' = print_error w"
  unfolding srt_body_def
  apply (erule bindIO_print, erule open_w_print)
  apply (erule bindIO_print, erule srt_entries_print)
  apply (erule returnIO_print)
  done

lemma ass_body_print: "ass_body segs p st w = (r, w') \<Longrightarrow> print_error w' = print_error w"
  unfolding ass_body_def
  apply (erule bindIO_print, erule open_w_print)
  apply (erule bindIO_print, erule write_each_print)
  apply (erule bindIO_print, erule ass_events_print)
  apply (erule returnIO_print)
  done

lemma txt_body_print: "txt_body segs p ts w = (r, w') \<Longrightarrow> print_error w' = print_error w"
  unfolding txt_body_def
  apply (erule bindIO_print, erule open_w_print)
  apply (erule bindIO_print, erule txt_lines_print)
  apply (erule returnIO_print)
  done

lemma fcpxml_body_print:
  "fcpxml_body ser segs p vd fps w = (r, w') \<Longrightarrow> print_error w' = print_error w"
  unfolding fcpxml_body_def
  apply (erule bindIO_print, erule liftE_print)
  apply (erule bindIO_print, erule liftE_print)
  apply (erule bindIO_print, erule open_w_print)
  apply (erule bindIO_print, erule write_bytes_print)
  apply (erule returnIO_print)
  done

text \<open>
  So where \<open>print\<close> cannot fail, every export returns a truth value, and what the caller
  runs next is run.
\<close>

lemma exports_return_when_print_cannot_fail:
  assumes "\<And>msg e. print_error w msg e = None"
  shows "\<exists>b w'. export_srt segs p w = (Inr b, w')"
    and "\<exists>b w'. export_ass segs p st w = (Inr b, w')"
    and "\<exists>b w'. export_txt segs p ts w = (Inr b, w')"
    and "\<exists>b w'. export_fcpxml ser segs p vd fps w = (Inr b, w')"
proof -
  show "\<exists>b w'. export_srt segs p w = (Inr b, w')"
  proof (cases "srt_body segs p w")
    case (Pair r w')
    from srt_body_print [OF Pair] assms have "print_error w' msg e = None" for msg e
      by simp
    with Pair show ?thesis
      by (cases r) (auto simp: export_srt_result)
  qed
  show "\<exists>b w'. export_ass segs p st w = (Inr b, w')"
  proof (cases "ass_body segs p st w")
    case (Pair r w')
    from ass_body_print [OF Pair] assms have "print_error w' msg e = None" for msg e
      by simp
    with Pair show ?thesis
      by (cases r) (auto simp: export_ass_result)
  qed
  show "\<exists>b w'. export_txt segs p ts w = (Inr b, w')"
  proof (cases "txt_body segs p ts w")
    case (Pair r w')
    from txt_body_print [OF Pair] assms have "print_error w' msg e = None" for msg e
      by simp
    with Pair show ?thesis
      by (cases r) (auto simp: export_txt_result)
  qed
  show "\<exists>b w'. export_fcpxml ser segs p vd fps w = (Inr b, w')"
  proof (cases "fcpxml_body ser segs p vd fps w")
    case (Pair r w')
    from fcpxml_body_print [OF Pair] assms have "print_error w' msg e = None" for msg e
      by simp
    with Pair show ?thesis
      by (cases r) (auto simp: export_fcpxml_result)
  qed
qed

text \<open>
  C5 does not hold of the code: the handler prints before it returns \<open>False\<close>, and nothing
  guards the \<open>print\<close>. Take an output path with Chinese characters that cannot be opened
  and a standard output that cannot encode them (an ASCII or cp1252 console), so that
  printing the \<open>OSError\<close>'s message raises \<open>UnicodeEncodeError\<close>. Then each of the four
  exports raises \<open>UnicodeEncodeError\<close> instead of returning \<open>False\<close>, and the export that a
  caller runs after the failed one is not reached.
\<close>

theorem export_raises_when_print_fails:
  "export_srt [\<lparr>seg_start = Finite (3 / 2), seg_end = Finite (13 / 4), seg_text = lit ''hi''\<rparr>]
     ([0x5B57, 0x5E55] @ lit ''.srt'')
     \<lparr>files = Map.empty, openable = (\<lambda>_. False), quota = (\<lambda>_. None), os_linesep = [13, 10],
      stdout = [],
      print_error = (\<lambda>msg e. if e = OSError then Some UnicodeEncodeError else None)\<rparr>
   = (Inl UnicodeEncodeError,
      \<lparr>files = Map.empty, openable = (\<lambda>_. False), quota = (\<lambda>_. None), os_linesep = [13, 10],
       stdout = [],
       print_error = (\<lambda>msg e. if e = OSError then Some UnicodeEncodeError else None)\<rparr>) \<and>
   export_ass [\<lparr>seg_start = Finite (3 / 2), seg_end = Finite (13 / 4), seg_text = lit ''hi''\<rparr>]
     ([0x5B57, 0x5E55] @ lit ''.ass'') (lit ''Default'')
     \<lparr>files = Map.empty, openable = (\<lambda>_. False), quota = (\<lambda>_. None), os_linesep = [13, 10],
      stdout = [],
      print_error = (\<lambda>msg e. if e = OSError then Some UnicodeEncodeError else None)\<rparr>
   = (Inl UnicodeEncodeError,
      \<lparr>files = Map.empty, openable = (\<lambda>_. False), quota = (\<lambda>_. None), os_linesep = [13, 10],
       stdout = [],
       print_error = (\<lambda>msg e. if e = OSError then Some UnicodeEncodeError else None)\<rparr>) \<and>
   export_txt [\<lparr>seg_start = Finite (3 / 2), seg_end = Finite (13 / 4), seg_text = lit ''hi''\<rparr>]
     ([0x5B57, 0x5E55] @ lit ''.txt'') True
     \<lparr>files = Map.empty, openable = (\<lambda>_. False), quota = (\<lambda>_. None), os_linesep = [13, 10],
      stdout = [],
      print_error = (\<lambda>msg e. if e = OSError then Some UnicodeEncodeError else None)\<rparr>
   = (Inl UnicodeEncodeError,
      \<lparr>files = Map.empty, openable = (\<lambda>_. False), quota = (\<lambda>_. None), os_linesep = [13, 10],
       stdout = [],
       print_error = (\<lambda>msg e. if e = OSError then Some UnicodeEncodeError else None)\<rparr>) \<and>
   export_fcpxml (\<lambda>doc. Some ''<fcpxml/>'')
     [\<lparr>seg_start = Finite 2, seg_end = Finite 2, seg_text = lit ''hi''\<rparr>]
     ([0x5B57, 0x5E55] @ lit ''.fcpxml'') None (Finite 30)
     \<lparr>files = Map.empty, openable = (\<lambda>_. False), quota = (\<lambda>_. None), os_linesep = [13, 10],
      stdout = [],
      print_error = (\<lambda>msg e. if e = OSError then Some UnicodeEncodeError else None)\<rparr>
   = (Inl UnicodeEncodeError,
      \<lparr>files = Map.empty, openable = (\<lambda>_. False), quota = (\<lambda>_. None), os_linesep = [13, 10],
       stdout = [],
       print_error = (\<lambda>msg e. if e = OSError then Some UnicodeEncodeError else None)\<rparr>) \<and>
   fst (bindIO
          (export_srt [\<lparr>seg_start = Finite (3 / 2), seg_end = Finite (13 / 4), seg_text = lit ''hi''\<rparr>]
             ([0x5B57, 0x5E55] @ lit ''.srt''))
          (\<lambda>_. export_txt
                 [\<lparr>seg_start = Finite (3 / 2), seg_end = Finite (13 / 4), seg_text = lit ''hi''\<rparr>]
                 (lit ''a.txt'') False)
          \<lparr>files = Map.empty, openable = (\<lambda>p. p = lit ''a.txt''), quota = (\<lambda>_. None),
           os_linesep = [13, 10], stdout = [],
           print_error = (\<lambda>msg e. if e = OSError then Some UnicodeEncodeError else None)\<rparr>)
     = Inl UnicodeEncodeError"
proof -
  from zero_span_tree obtain doc where
    "fcpxml_tree [\<lparr>seg_start = Finite 2, seg_end = Finite 2, seg_text = lit ''hi''\<rparr>] None
       (Finite 30) = Inr doc" ..
  then show ?thesis
    by (simp add: export_srt_result export_ass_result export_txt_result export_fcpxml_result
        srt_body_refused ass_body_refused txt_body_refused
        fcpxml_body_refused [where bytes = "''<fcpxml/>''"] bindIO_def lit_def)
qed

text \<open>
  With a \<open>print\<close> that succeeds, the same failed export returns \<open>False\<close> and the plain-text
  export that follows it runs and returns \<open>True\<close>.
\<close>

lemma txt_after_failed_srt:
  "fst (export_txt [\<lparr>seg_start = Finite (3 / 2), seg_end = Finite (13 / 4), seg_text = lit ''hi''\<rparr>]
          (lit ''a.txt'') False
          \<lparr>files = Map.empty, openable = (\<lambda>p. p = lit ''a.txt''), quota = (\<lambda>_. None),
           os_linesep = [10], stdout = [(''Error exporting SRT: '', OSError)],
           print_error = (\<lambda>_ _. None)\<rparr>) = Inr True"
  by code_simp

lemma failed_srt_then_txt:
  "fst (bindIO
          (export_srt [\<lparr>seg_start = Finite (3 / 2), seg_end = Finite (13 / 4), seg_text = lit ''hi''\<rparr>]
             ([0x5B57, 0x5E55] @ lit ''.srt''))
          (\<lambda>_. export_txt
                 [\<lparr>seg_start = Finite (3 / 2), seg_end = Finite (13 / 4), seg_text = lit ''hi''\<rparr>]
                 (lit ''a.txt'') False)
          \<lparr>files = Map.empty, openable = (\<lambda>p. p = lit ''a.txt''), quota = (\<lambda>_. None),
           os_linesep = [10], stdout = [], print_error = (\<lambda>_ _. None)\<rparr>) = Inr True"
proof -
  have "[0x5B57, 0x5E55] @ lit ''.srt'' \<noteq> lit ''a.txt''"
    by (simp add: lit_def)
  then show ?thesis
    using txt_after_failed_srt
    by (simp add: bindIO_def export_srt_result srt_body_refused)
qed

subsection \<open>What a successful export leaves in the file\<close>

lemma utf8_encode_append:
  "utf8_encode (a @ b) = bindE (utf8_encode a) (\<lambda>x. bindE (utf8_encode b) (\<lambda>y. Inr (x @ y)))"
proof (induction a)
  case Nil
  show ?case by (cases "utf8_encode b") (simp_all add: bindE_def)
next
  case (Cons c a)
  show ?case
    by (cases "utf8_char c"; cases "utf8_encode a"; cases "utf8_encode b")
      (simp_all add: Cons bindE_def)
qed

lemma translate_newlines_append:
  "translate_newlines sep (a @ b) = translate_newlines sep a @ translate_newlines sep b"
  by (simp add: translate_newlines_def)

lemma encode_text_append:
  "encode_text w (a @ b) = Inr c \<longleftrightarrow>
     (\<exists>x y. encode_text w a = Inr x \<and> encode_text w b = Inr y \<and> c = x @ y)"
  by (auto simp: encode_text_def translate_newlines_append utf8_encode_append bindE_Inr_iff)

lemma encode_text_Nil: "encode_text w [] = Inr []"
  by (simp add: encode_text_def translate_newlines_def)

lemma encode_text_cong: "os_linesep w = os_linesep w' \<Longrightarrow> encode_text w s = encode_text w' s"
  by (simp add: encode_text_def)

lemma write_bytes_Inr:
  "write_bytes p bs w = (Inr u, w') \<Longrightarrow>
     files w' p = Some (content w p @ bs) \<and> os_linesep w' = os_linesep w"
  by (auto simp: write_bytes_def append_file_def split: if_splits)

lemma write_text_Inr:
  "write_text p s w = (Inr u, w') \<Longrightarrow>
     \<exists>bs. encode_text w s = Inr bs \<and> files w' p = Some (content w p @ bs) \<and>
          os_linesep w' = os_linesep w"
  by (auto simp: write_text_def bindIO_Inr_iff liftE_iff dest: write_bytes_Inr)

lemma content_Some: "files w p = Some c \<Longrightarrow> content w p = c"
  by (simp add: content_def)

lemma write_each_Inr:
  "write_each p ss w = (Inr u, w') \<Longrightarrow> files w p = Some c \<Longrightarrow>
     \<exists>bs. encode_text w (concat ss) = Inr bs \<and> files w' p = Some (c @ bs) \<and>
          os_linesep w' = os_linesep w"
proof (induction ss arbitrary: w c)
  case Nil
  then show ?case by (simp add: returnIO_iff encode_text_Nil)
next
  case (Cons s ss)
  from Cons.prems(1) obtain w1 where s: "write_text p s w = (Inr (), w1)"
    and ss: "write_each p ss w1 = (Inr u, w')"
    by (auto simp: bindIO_Inr_iff)
  from write_text_Inr [OF s] Cons.prems(2) obtain b1 where b1: "encode_text w s = Inr b1"
    "files w1 p = Some (c @ b1)" "os_linesep w1 = os_linesep w"
    by (auto simp: content_Some)
  from Cons.IH [OF ss b1(2)] obtain b2 where b2: "encode_text w1 (concat ss) = Inr b2"
    "files w' p = Some ((c @ b1) @ b2)" "os_linesep w' = os_linesep w1"
    by auto
  from b2(1) b1(3) have b2': "encode_text w (concat ss) = Inr b2"
    by (simp add: encode_text_cong [of w1 w])
  have "encode_text w (concat (s # ss)) = Inr (b1 @ b2)"
    unfolding concat.simps by (rule encode_text_append [THEN iffD2]) (use b1(1) b2' in blast)
  with b1 b2 show ?case by auto
qed

lemma ass_events_Inr:
  "ass_events p style segs w = (Inr u, w') \<Longrightarrow> files w p = Some c \<Longrightarrow>
     \<exists>lines bs. encode_text w (concat lines) = Inr bs \<and> files w' p = Some (c @ bs) \<and>
       os_linesep w' = os_linesep w \<and> length lines = length segs \<and>
       (\<forall>k<length segs. \<exists>start_time end_time.
          format_ass_time (seg_start (segs ! k)) = Inr start_time \<and>
          format_ass_time (seg_end (segs ! k)) = Inr end_time \<and>
          lines ! k = lit ''Dialogue: 0,'' @ start_time @ lit '','' @ end_time @ lit '',''
            @ style @ lit '',,0,0,0,,''
            @ replace_char 10 (lit [CHR 0x5C, CHR ''N'']) (seg_text (segs ! k)) @ [10])"
proof (induction segs arbitrary: w c)
  case Nil
  then have "encode_text w (concat []) = Inr [] \<and> files w' p = Some (c @ []) \<and>
      os_linesep w' = os_linesep w"
    by (simp add: returnIO_iff encode_text_Nil)
  then show ?case by (intro exI [of _ "[]"]) simp
next
  case (Cons seg segs)
  let ?line = "\<lambda>st en. lit ''Dialogue: 0,'' @ st @ lit '','' @ en @ lit '',''
            @ style @ lit '',,0,0,0,,''
            @ replace_char 10 (lit [CHR 0x5C, CHR ''N'']) (seg_text seg) @ [10]"
  from Cons.prems(1) obtain st en w1 where st: "format_ass_time (seg_start seg) = Inr st"
    and en: "format_ass_time (seg_end seg) = Inr en"
    and wr: "write_text p (?line st en) w = (Inr (), w1)"
    and rest: "ass_events p style segs w1 = (Inr u, w')"
    by (auto simp: bindIO_Inr_iff liftE_iff Let_def)
  from write_text_Inr [OF wr] Cons.prems(2) obtain b1 where b1: "encode_text w (?line st en) = Inr b1"
    "files w1 p = Some (c @ b1)" "os_linesep w1 = os_linesep w"
    by (auto simp: content_Some)
  from Cons.IH [OF rest b1(2)] obtain lines b2 where b2: "encode_text w1 (concat lines) = Inr b2"
    "files w' p = Some ((c @ b1) @ b2)" "os_linesep w' = os_linesep w1"
    and len: "length lines = length segs"
    and nth: "\<And>k. k < length segs \<Longrightarrow> \<exists>start_time end_time.
          format_ass_time (seg_start (segs ! k)) = Inr start_time \<and>
          format_ass_time (seg_end (segs ! k)) = Inr end_time \<and>
          lines ! k = lit ''Dialogue: 0,'' @ start_time @ lit '','' @ end_time @ lit '',''
            @ style @ lit '',,0,0,0,,''
            @ replace_char 10 (lit [CHR 0x5C, CHR ''N'']) (seg_text (segs ! k)) @ [10]"
    by blast
  from b2(1) b1(3) have b2': "encode_text w (concat lines) = Inr b2"
    by (simp add: encode_text_cong [of w1 w])
  have enc: "encode_text w (concat (?line st en # lines)) = Inr (b1 @ b2)"
    unfolding concat.simps by (rule encode_text_append [THEN iffD2]) (use b1(1) b2' in blast)
  have "\<exists>start_time end_time.
          format_ass_time (seg_start ((seg # segs) ! k)) = Inr start_time \<and>
          format_ass_time (seg_end ((seg # segs) ! k)) = Inr end_time \<and>
          (?line st en # lines) ! k = lit ''Dialogue: 0,'' @ start_time @ lit '','' @ end_time @ lit '',''
            @ style @ lit '',,0,0,0,,''
            @ replace_char 10 (lit [CHR 0x5C, CHR ''N'']) (seg_text ((seg # segs) ! k)) @ [10]"
    if "k < length (seg # segs)" for k
  proof (cases k)
    case 0
    with st en show ?thesis by simp
  next
    case (Suc j)
    with that nth [of j] show ?thesis by simp
  qed
  with enc b1 b2 len show ?case
    by (intro exI [of _ "?line st en # lines"] exI [of _ "b1 @ b2"]) simp
qed


lemma srt_entries_Inr:
  "srt_entries p i segs w = (Inr u, w') \<Longrightarrow> files w p = Some c \<Longrightarrow>
     \<exists>entries bs. encode_text w (concat entries) = Inr bs \<and> files w' p = Some (c @ bs) \<and>
       os_linesep w' = os_linesep w \<and> length entries = length segs \<and>
       (\<forall>k<length segs. \<exists>start_time end_time.
          format_srt_time (seg_start (segs ! k)) = Inr start_time \<and>
          format_srt_time (seg_end (segs ! k)) = Inr end_time \<and>
          entries ! k = (str_int (i + int k) @ [10])
            @ (start_time @ lit '' --> '' @ end_time @ [10])
            @ (seg_text (segs ! k) @ [10]) @ [10])"
proof (induction segs arbitrary: i w c)
  case Nil
  then have "encode_text w (concat []) = Inr [] \<and> files w' p = Some (c @ []) \<and>
      os_linesep w' = os_linesep w"
    by (simp add: returnIO_iff encode_text_Nil)
  then show ?case by (intro exI [of _ "[]"]) simp
next
  case (Cons seg segs)
  from Cons.prems(1) obtain st en w1 w2 w3 w4 where st: "format_srt_time (seg_start seg) = Inr st"
    and en: "format_srt_time (seg_end seg) = Inr en"
    and wr1: "write_text p (str_int i @ [10]) w = (Inr (), w1)"
    and wr2: "write_text p (st @ lit '' --> '' @ en @ [10]) w1 = (Inr (), w2)"
    and wr3: "write_text p (seg_text seg @ [10]) w2 = (Inr (), w3)"
    and wr4: "write_text p [10] w3 = (Inr (), w4)"
    and rest: "srt_entries p (i + 1) segs w4 = (Inr u, w')"
    by (auto simp: bindIO_Inr_iff liftE_iff)
  let ?entry = "(str_int i @ [10]) @ (st @ lit '' --> '' @ en @ [10]) @ (seg_text seg @ [10]) @ [10]"
  from write_text_Inr [OF wr1] Cons.prems(2) obtain b1 where b1:
    "encode_text w (str_int i @ [10]) = Inr b1" "files w1 p = Some (c @ b1)"
    "os_linesep w1 = os_linesep w"
    by (auto simp: content_Some)
  from write_text_Inr [OF wr2] b1(2) obtain b2 where b2:
    "encode_text w1 (st @ lit '' --> '' @ en @ [10]) = Inr b2" "files w2 p = Some (c @ b1 @ b2)"
    "os_linesep w2 = os_linesep w1"
    by (auto simp: content_Some)
  from write_text_Inr [OF wr3] b2(2) obtain b3 where b3:
    "encode_text w2 (seg_text seg @ [10]) = Inr b3" "files w3 p = Some (c @ b1 @ b2 @ b3)"
    "os_linesep w3 = os_linesep w2"
    by (auto simp: content_Some)
  from write_text_Inr [OF wr4] b3(2) obtain b4 where b4:
    "encode_text w3 [10] = Inr b4" "files w4 p = Some (c @ b1 @ b2 @ b3 @ b4)"
    "os_linesep w4 = os_linesep w3"
    by (auto simp: content_Some)
  have sep: "os_linesep w1 = os_linesep w" "os_linesep w2 = os_linesep w"
    "os_linesep w3 = os_linesep w" "os_linesep w4 = os_linesep w"
    using b1(3) b2(3) b3(3) b4(3) by simp_all
  from Cons.IH [OF rest b4(2)] obtain entries b5 where b5:
    "encode_text w4 (concat entries) = Inr b5"
    "files w' p = Some ((c @ b1 @ b2 @ b3 @ b4) @ b5)" "os_linesep w' = os_linesep w4"
    and len: "length entries = length segs"
    and nth: "\<And>k. k < length segs \<Longrightarrow> \<exists>start_time end_time.
          format_srt_time (seg_start (segs ! k)) = Inr start_time \<and>
          format_srt_time (seg_end (segs ! k)) = Inr end_time \<and>
          entries ! k = (str_int (i + 1 + int k) @ [10])
            @ (start_time @ lit '' --> '' @ end_time @ [10])
            @ (seg_text (segs ! k) @ [10]) @ [10]"
    by blast
  have e2: "encode_text w (st @ lit '' --> '' @ en @ [10]) = Inr b2"
    using b2(1) by (simp add: encode_text_cong [OF sep(1)])
  have e3: "encode_text w (seg_text seg @ [10]) = Inr b3"
    using b3(1) by (simp add: encode_text_cong [OF sep(2)])
  have e4: "encode_text w [10] = Inr b4"
    using b4(1) by (simp add: encode_text_cong [OF sep(3)])
  have e5: "encode_text w (concat entries) = Inr b5"
    using b5(1) by (simp add: encode_text_cong [OF sep(4)])
  have e34: "encode_text w ((seg_text seg @ [10]) @ [10]) = Inr (b3 @ b4)"
    by (rule encode_text_append [THEN iffD2]) (use e3 e4 in blast)
  have e234: "encode_text w ((st @ lit '' --> '' @ en @ [10]) @ (seg_text seg @ [10]) @ [10])
      = Inr (b2 @ b3 @ b4)"
    by (rule encode_text_append [THEN iffD2]) (use e2 e34 in blast)
  have e1234: "encode_text w ?entry = Inr (b1 @ b2 @ b3 @ b4)"
    by (rule encode_text_append [THEN iffD2]) (use b1(1) e234 in blast)
  have enc: "encode_text w (concat (?entry # entries)) = Inr ((b1 @ b2 @ b3 @ b4) @ b5)"
    unfolding concat.simps by (rule encode_text_append [THEN iffD2]) (use e1234 e5 in blast)
  have "\<exists>start_time end_time.
          format_srt_time (seg_start ((seg # segs) ! k)) = Inr start_time \<and>
          format_srt_time (seg_end ((seg # segs) ! k)) = Inr end_time \<and>
          (?entry # entries) ! k = (str_int (i + int k) @ [10])
            @ (start_time @ lit '' --> '' @ end_time @ [10])
            @ (seg_text ((seg # segs) ! k) @ [10]) @ [10]"
    if "k < length (seg # segs)" for k
  proof (cases k)
    case 0
    with st en show ?thesis by simp
  next
    case (Suc j)
    have "i + 1 + int j = i + int (Suc j)" by simp
    with Suc that nth [of j] show ?thesis by (simp del: of_nat_Suc)
  qed
  with enc b5 sep len show ?case
    by (intro exI [of _ "?entry # entries"] exI [of _ "(b1 @ b2 @ b3 @ b4) @ b5"]) simp
qed

lemma try_except_True: "try_except msg body w = (Inr True, w') \<Longrightarrow> body w = (Inr True, w')"
  by (cases "body w")
    (auto simp: try_except_def print_message_def bindIO_def returnIO_def
      split: sum.splits if_splits option.splits)

lemma open_w_Inr:
  "open_w p w = (Inr u, w') \<Longrightarrow> files w' p = Some [] \<and> os_linesep w' = os_linesep w"
  by (auto simp: open_w_def split: if_splits)


lemma export_ass_content:
  assumes "export_ass segs p style w = (Inr True, w')"
  shows "\<exists>lines bytes. files w' p = Some bytes \<and>
       encode_text w (concat (ass_header style) @ concat lines) = Inr bytes \<and>
       length lines = length segs \<and>
       (\<forall>k<length segs. \<exists>start_time end_time.
          format_ass_time (seg_start (segs ! k)) = Inr start_time \<and>
          format_ass_time (seg_end (segs ! k)) = Inr end_time \<and>
          lines ! k = lit ''Dialogue: 0,'' @ start_time @ lit '','' @ end_time @ lit '',''
            @ style @ lit '',,0,0,0,,''
            @ replace_char 10 (lit [CHR 0x5C, CHR ''N'']) (seg_text (segs ! k)) @ [10])"
proof -
  from assms have "ass_body segs p style w = (Inr True, w')"
    unfolding export_ass_def by (rule try_except_True)
  then obtain w0 w1 where op: "open_w p w = (Inr (), w0)"
    and hd: "write_each p (ass_header style) w0 = (Inr (), w1)"
    and ev: "ass_events p style segs w1 = (Inr (), w')"
    by (auto simp: ass_body_def bindIO_Inr_iff returnIO_iff)
  from open_w_Inr [OF op] have w0: "files w0 p = Some []" "os_linesep w0 = os_linesep w"
    by simp_all
  from write_each_Inr [OF hd w0(1)] obtain b1 where b1:
    "encode_text w0 (concat (ass_header style)) = Inr b1" "files w1 p = Some ([] @ b1)"
    "os_linesep w1 = os_linesep w0"
    by blast
  from ass_events_Inr [OF ev b1(2)] obtain lines b2 where b2:
    "encode_text w1 (concat lines) = Inr b2" "files w' p = Some (([] @ b1) @ b2)"
    and len: "length lines = length segs"
    and nth: "\<forall>k<length segs. \<exists>start_time end_time.
          format_ass_time (seg_start (segs ! k)) = Inr start_time \<and>
          format_ass_time (seg_end (segs ! k)) = Inr end_time \<and>
          lines ! k = lit ''Dialogue: 0,'' @ start_time @ lit '','' @ end_time @ lit '',''
            @ style @ lit '',,0,0,0,,''
            @ replace_char 10 (lit [CHR 0x5C, CHR ''N'']) (seg_text (segs ! k)) @ [10]"
    by blast
  have e1: "encode_text w (concat (ass_header style)) = Inr b1"
    using b1(1) by (simp add: encode_text_cong [OF w0(2)])
  have e2: "encode_text w (concat lines) = Inr b2"
    using b2(1) b1(3) w0(2) by (simp add: encode_text_cong [of w1 w])
  have "encode_text w (concat (ass_header style) @ concat lines) = Inr (b1 @ b2)"
    by (rule encode_text_append [THEN iffD2]) (use e1 e2 in blast)
  with b2(2) len nth show ?thesis
    by (intro exI [of _ lines] exI [of _ "b1 @ b2"]) simp
qed

lemma export_srt_content:
  assumes "export_srt segs p w = (Inr True, w')"
  shows "\<exists>entries bytes. files w' p = Some bytes \<and>
       encode_text w (concat entries) = Inr bytes \<and>
       length entries = length segs \<and>
       (\<forall>k<length segs. \<exists>start_time end_time.
          format_srt_time (seg_start (segs ! k)) = Inr start_time \<and>
          format_srt_time (seg_end (segs ! k)) = Inr end_time \<and>
          entries ! k = (str_int (1 + int k) @ [10])
            @ (start_time @ lit '' --> '' @ end_time @ [10])
            @ (seg_text (segs ! k) @ [10]) @ [10])"
proof -
  from assms have "srt_body segs p w = (Inr True, w')"
    unfolding export_srt_def by (rule try_except_True)
  then obtain w0 where op: "open_w p w = (Inr (), w0)"
    and en: "srt_entries p 1 segs w0 = (Inr (), w')"
    by (auto simp: srt_body_def bindIO_Inr_iff returnIO_iff)
  from open_w_Inr [OF op] have w0: "files w0 p = Some []" "os_linesep w0 = os_linesep w"
    by simp_all
  from srt_entries_Inr [OF en w0(1)] obtain entries bs where bs:
    "encode_text w0 (concat entries) = Inr bs" "files w' p = Some ([] @ bs)"
    and len: "length entries = length segs"
    and nth: "\<forall>k<length segs. \<exists>start_time end_time.
          format_srt_time (seg_start (segs ! k)) = Inr start_time \<and>
          format_srt_time (seg_end (segs ! k)) = Inr end_time \<and>
          entries ! k = (str_int (1 + int k) @ [10])
            @ (start_time @ lit '' --> '' @ end_time @ [10])
            @ (seg_text (segs ! k) @ [10]) @ [10]"
    by blast
  have "encode_text w (concat entries) = Inr bs"
    using bs(1) by (simp add: encode_text_cong [OF w0(2)])
  with bs(2) len nth show ?thesis
    by (intro exI [of _ entries] exI [of _ bs]) simp
qed

lemma export_fcpxml_content:
  assumes "export_fcpxml ser segs p vd fps w = (Inr True, w')"
  shows "\<exists>doc bytes. fcpxml_tree segs vd fps = Inr doc \<and> ser doc = Some bytes \<and>
           files w' p = Some bytes"
proof -
  from assms have "fcpxml_body ser segs p vd fps w = (Inr True, w')"
    unfolding export_fcpxml_def by (rule try_except_True)
  then obtain doc bytes w0 where "fcpxml_tree segs vd fps = Inr doc" "ser doc = Some bytes"
    and op: "open_w p w = (Inr (), w0)" and wr: "write_bytes p bytes w0 = (Inr (), w')"
    by (auto simp: fcpxml_body_def bindIO_Inr_iff returnIO_iff liftE_iff split: option.splits)
  moreover from open_w_Inr [OF op] write_bytes_Inr [OF wr] have "files w' p = Some bytes"
    by (simp add: content_Some)
  ultimately show ?thesis by blast
qed

lemma replace_char_removes: "new = lit [CHR 0x5C, CHR ''N''] \<Longrightarrow> 10 \<notin> set (replace_char 10 new s)"
  by (auto simp: replace_char_def lit_def)

text \<open>
  C6. When \<open>export_ass\<close> returns \<open>True\<close>, the file holds the encoding of the header followed
  by one line per segment, in order. The header is \<open>ass_header\<close>: it starts with
  \<open>[Script Info]\<close>, has the \<open>[V4+ Styles]\<close> section with exactly one \<open>Style:\<close> line, for the
  given style name, and ends with the \<open>[Events]\<close> section's format line. The line of a
  segment is \<open>Dialogue: 0,<start>,<end>,<style>,,0,0,0,,<text>\<close> with the two ASS timecodes
  and the text in which every \<open>'\n'\<close> has become the two characters \<open>\N\<close>, so that no
  newline is left in it.
\<close>

theorem ass_file_layout:
  assumes "export_ass segments path style_name w = (Inr True, w')"
  shows "\<exists>lines bytes.
       files w' path = Some bytes \<and>
       encode_text w (concat (ass_header style_name) @ concat lines) = Inr bytes \<and>
       ass_header style_name ! 0 = lit ''[Script Info]'' @ [10] \<and>
       ass_header style_name ! 5 = lit ''[V4+ Styles]'' @ [10] \<and>
       filter (\<lambda>l. take 7 l = lit ''Style: '') (ass_header style_name)
         = [lit ''Style: '' @ style_name @ lit '',Arial,20,&H00FFFFFF,&H000000FF,&H00000000,''
            @ lit ''&H00000000,0,0,0,0,100,100,0,0,1,2,2,2,10,10,10,1'' @ [10, 10]] \<and>
       ass_header style_name ! 8 = lit ''[Events]'' @ [10] \<and>
       length lines = length segments \<and>
       (\<forall>k<length segments. \<exists>start_time end_time.
          format_ass_time (seg_start (segments ! k)) = Inr start_time \<and>
          format_ass_time (seg_end (segments ! k)) = Inr end_time \<and>
          lines ! k = lit ''Dialogue: 0,'' @ start_time @ lit '','' @ end_time @ lit '',''
            @ style_name @ lit '',,0,0,0,,''
            @ replace_char 10 (lit [CHR 0x5C, CHR ''N'']) (seg_text (segments ! k)) @ [10] \<and>
          10 \<notin> set (replace_char 10 (lit [CHR 0x5C, CHR ''N'']) (seg_text (segments ! k))))"
proof -
  have h0: "ass_header style_name ! 0 = lit ''[Script Info]'' @ [10]"
    and h5: "ass_header style_name ! 5 = lit ''[V4+ Styles]'' @ [10]"
    and h8: "ass_header style_name ! 8 = lit ''[Events]'' @ [10]"
    by (simp_all add: ass_header_def)
  have st: "filter (\<lambda>l. take 7 l = lit ''Style: '') (ass_header style_name)
         = [lit ''Style: '' @ style_name @ lit '',Arial,20,&H00FFFFFF,&H000000FF,&H00000000,''
            @ lit ''&H00000000,0,0,0,0,100,100,0,0,1,2,2,2,10,10,10,1'' @ [10, 10]]"
    by (simp add: ass_header_def lit_def)
  from export_ass_content [OF assms] obtain lines bytes where
    "files w' path = Some bytes"
    "encode_text w (concat (ass_header style_name) @ concat lines) = Inr bytes"
    "length lines = length segments"
    and nth: "\<forall>k<length segments. \<exists>start_time end_time.
          format_ass_time (seg_start (segments ! k)) = Inr start_time \<and>
          format_ass_time (seg_end (segments ! k)) = Inr end_time \<and>
          lines ! k = lit ''Dialogue: 0,'' @ start_time @ lit '','' @ end_time @ lit '',''
            @ style_name @ lit '',,0,0,0,,''
            @ replace_char 10 (lit [CHR 0x5C, CHR ''N'']) (seg_text (segments ! k)) @ [10]"
    by blast
  moreover have "10 \<notin> set (replace_char 10 (lit [CHR 0x5C, CHR ''N'']) t)" for t
    by (rule replace_char_removes) simp
  ultimately show ?thesis
    using h0 h5 h8 st
    by (intro exI [of _ lines] exI [of _ bytes]) simp
qed


lemma srt_entries_unique:
  assumes "length e1 = length segs" "length e2 = length segs"
    and "\<forall>k<length segs. \<exists>start_time end_time.
          format_srt_time (seg_start (segs ! k)) = Inr start_time \<and>
          format_srt_time (seg_end (segs ! k)) = Inr end_time \<and>
          e1 ! k = (str_int (1 + int k) @ [10])
            @ (start_time @ lit '' --> '' @ end_time @ [10])
            @ (seg_text (segs ! k) @ [10]) @ [10]"
    and "\<forall>k<length segs. \<exists>start_time end_time.
          format_srt_time (seg_start (segs ! k)) = Inr start_time \<and>
          format_srt_time (seg_end (segs ! k)) = Inr end_time \<and>
          e2 ! k = (str_int (1 + int k) @ [10])
            @ (start_time @ lit '' --> '' @ end_time @ [10])
            @ (seg_text (segs ! k) @ [10]) @ [10]"
  shows "e1 = e2"
proof (rule nth_equalityI)
  show "length e1 = length e2" using assms(1,2) by simp
next
  fix k assume "k < length e1"
  then have "k < length segs" using assms(1) by simp
  with assms(3,4) show "e1 ! k = e2 ! k" by fastforce
qed

lemma ass_lines_unique:
  assumes "length l1 = length segs" "length l2 = length segs"
    and "\<forall>k<length segs. \<exists>start_time end_time.
          format_ass_time (seg_start (segs ! k)) = Inr start_time \<and>
          format_ass_time (seg_end (segs ! k)) = Inr end_time \<and>
          l1 ! k = lit ''Dialogue: 0,'' @ start_time @ lit '','' @ end_time @ lit '',''
            @ style @ lit '',,0,0,0,,''
            @ replace_char 10 (lit [CHR 0x5C, CHR ''N'']) (seg_text (segs ! k)) @ [10]"
    and "\<forall>k<length segs. \<exists>start_time end_time.
          format_ass_time (seg_start (segs ! k)) = Inr start_time \<and>
          format_ass_time (seg_end (segs ! k)) = Inr end_time \<and>
          l2 ! k = lit ''Dialogue: 0,'' @ start_time @ lit '','' @ end_time @ lit '',''
            @ style @ lit '',,0,0,0,,''
            @ replace_char 10 (lit [CHR 0x5C, CHR ''N'']) (seg_text (segs ! k)) @ [10]"
  shows "l1 = l2"
proof (rule nth_equalityI)
  show "length l1 = length l2" using assms(1,2) by simp
next
  fix k assume "k < length l1"
  then have "k < length segs" using assms(1) by simp
  with assms(3,4) show "l1 ! k = l2 ! k" by fastforce
qed

lemma export_srt_deterministic:
  assumes "export_srt segs p1 w1 = (Inr True, w1')" "export_srt segs p2 w2 = (Inr True, w2')"
    and sep: "os_linesep w1 = os_linesep w2"
  shows "files w1' p1 = files w2' p2 \<and> files w1' p1 \<noteq> None"
proof -
  from export_srt_content [OF assms(1)] obtain e1 b1 where 1: "files w1' p1 = Some b1"
    "encode_text w1 (concat e1) = Inr b1" "length e1 = length segs"
    and n1: "\<forall>k<length segs. \<exists>start_time end_time.
          format_srt_time (seg_start (segs ! k)) = Inr start_time \<and>
          format_srt_time (seg_end (segs ! k)) = Inr end_time \<and>
          e1 ! k = (str_int (1 + int k) @ [10])
            @ (start_time @ lit '' --> '' @ end_time @ [10])
            @ (seg_text (segs ! k) @ [10]) @ [10]"
    by blast
  from export_srt_content [OF assms(2)] obtain e2 b2 where 2: "files w2' p2 = Some b2"
    "encode_text w2 (concat e2) = Inr b2" "length e2 = length segs"
    and n2: "\<forall>k<length segs. \<exists>start_time end_time.
          format_srt_time (seg_start (segs ! k)) = Inr start_time \<and>
          format_srt_time (seg_end (segs ! k)) = Inr end_time \<and>
          e2 ! k = (str_int (1 + int k) @ [10])
            @ (start_time @ lit '' --> '' @ end_time @ [10])
            @ (seg_text (segs ! k) @ [10]) @ [10]"
    by blast
  have "e1 = e2" by (rule srt_entries_unique [OF 1(3) 2(3) n1 n2])
  with 1 2 sep show ?thesis by (simp add: encode_text_cong [of w1 w2])
qed

lemma export_ass_deterministic:
  assumes "export_ass segs p1 style w1 = (Inr True, w1')"
    "export_ass segs p2 style w2 = (Inr True, w2')"
    and sep: "os_linesep w1 = os_linesep w2"
  shows "files w1' p1 = files w2' p2 \<and> files w1' p1 \<noteq> None"
proof -
  from export_ass_content [OF assms(1)] obtain l1 b1 where 1: "files w1' p1 = Some b1"
    "encode_text w1 (concat (ass_header style) @ concat l1) = Inr b1" "length l1 = length segs"
    and n1: "\<forall>k<length segs. \<exists>start_time end_time.
          format_ass_time (seg_start (segs ! k)) = Inr start_time \<and>
          format_ass_time (seg_end (segs ! k)) = Inr end_time \<and>
          l1 ! k = lit ''Dialogue: 0,'' @ start_time @ lit '','' @ end_time @ lit '',''
            @ style @ lit '',,0,0,0,,''
            @ replace_char 10 (lit [CHR 0x5C, CHR ''N'']) (seg_text (segs ! k)) @ [10]"
    by blast
  from export_ass_content [OF assms(2)] obtain l2 b2 where 2: "files w2' p2 = Some b2"
    "encode_text w2 (concat (ass_header style) @ concat l2) = Inr b2" "length l2 = length segs"
    and n2: "\<forall>k<length segs. \<exists>start_time end_time.
          format_ass_time (seg_start (segs ! k)) = Inr start_time \<and>
          format_ass_time (seg_end (segs ! k)) = Inr end_time \<and>
          l2 ! k = lit ''Dialogue: 0,'' @ start_time @ lit '','' @ end_time @ lit '',''
            @ style @ lit '',,0,0,0,,''
            @ replace_char 10 (lit [CHR 0x5C, CHR ''N'']) (seg_text (segs ! k)) @ [10]"
    by blast
  have "l1 = l2" by (rule ass_lines_unique [OF 1(3) 2(3) n1 n2])
  with 1 2 sep show ?thesis by (simp add: encode_text_cong [of w1 w2])
qed

lemma export_fcpxml_deterministic:
  assumes "export_fcpxml ser segs p1 vd fps w1 = (Inr True, w1')"
    "export_fcpxml ser segs p2 vd fps w2 = (Inr True, w2')"
  shows "files w1' p1 = files w2' p2 \<and> files w1' p1 \<noteq> None"
  using export_fcpxml_content [OF assms(1)] export_fcpxml_content [OF assms(2)] by auto

subsection \<open>When an export succeeds\<close>

lemma utf8_encode_low: "\<forall>c\<in>set s. c < 0xD800 \<Longrightarrow> \<exists>bs. utf8_encode s = Inr bs"
proof (induction s)
  case Nil
  show ?case by simp
next
  case (Cons c s)
  then obtain bs where "utf8_encode s = Inr bs" by auto
  moreover from Cons.prems have "\<exists>b. utf8_char c = Inr b"
    by (simp add: utf8_char_def)
  ultimately show ?case by (auto simp: bindE_def)
qed

lemma encode_text_low:
  "\<forall>c\<in>set (os_linesep w). c < 0xD800 \<Longrightarrow> \<forall>c\<in>set s. c < 0xD800 \<Longrightarrow>
     \<exists>bs. encode_text w s = Inr bs"
  unfolding encode_text_def
  by (rule utf8_encode_low) (auto simp: translate_newlines_def split: if_splits)

lemma write_text_ok:
  "quota w p = None \<Longrightarrow> encode_text w s = Inr bs \<Longrightarrow>
     write_text p s w = (Inr (), append_file p bs w)"
  by (simp add: write_text_def bindIO_def liftE_def write_bytes_def)

lemma append_file_frame [simp]:
  "quota (append_file p bs w) = quota w" "os_linesep (append_file p bs w) = os_linesep w"
  "openable (append_file p bs w) = openable w"
  by (simp_all add: append_file_def)

lemma write_text_low:
  assumes "quota w p = None" "\<forall>c\<in>set (os_linesep w). c < 0xD800" "\<forall>c\<in>set s. c < 0xD800"
  shows "\<exists>w'. write_text p s w = (Inr (), w') \<and> quota w' p = None \<and>
           os_linesep w' = os_linesep w"
proof -
  from encode_text_low [OF assms(2,3)] obtain bs where "encode_text w s = Inr bs" ..
  from write_text_ok [OF assms(1) this] assms(1) show ?thesis by simp
qed

lemma write_each_low:
  "quota w p = None \<Longrightarrow> \<forall>c\<in>set (os_linesep w). c < 0xD800 \<Longrightarrow>
   \<forall>s\<in>set ss. \<forall>c\<in>set s. c < 0xD800 \<Longrightarrow>
     \<exists>w'. write_each p ss w = (Inr (), w') \<and> quota w' p = None \<and> os_linesep w' = os_linesep w"
proof (induction ss arbitrary: w)
  case Nil
  then show ?case by (simp add: returnIO_def)
next
  case (Cons s ss)
  from write_text_low [OF Cons.prems(1,2), of s] Cons.prems(3) obtain w1 where
    w1: "write_text p s w = (Inr (), w1)" "quota w1 p = None" "os_linesep w1 = os_linesep w"
    by auto
  from Cons.IH [OF w1(2)] Cons.prems(2,3) w1(3) obtain w' where
    "write_each p ss w1 = (Inr (), w')" "quota w' p = None" "os_linesep w' = os_linesep w1"
    by auto
  with w1 show ?case by (simp add: bindIO_def)
qed

lemma lit_low: "c \<in> set (lit s) \<Longrightarrow> c < 0xD800"
proof -
  assume "c \<in> set (lit s)"
  then obtain x :: char where "c = of_char x" by (auto simp: lit_def)
  moreover have "(of_char x :: nat) < 256" by (rule nat_of_char_less_256)
  ultimately show ?thesis by linarith
qed

lemma fmt_0d_low: "c \<in> set (fmt_0d w n) \<Longrightarrow> c < 0xD800"
  using set_fmt_0d [of w n] by auto

lemma str_int_low: "c \<in> set (str_int n) \<Longrightarrow> c < 0xD800"
  using set_str_int [of n] by auto

lemma format_ass_time_low: "format_ass_time s = Inr out \<Longrightarrow> c \<in> set out \<Longrightarrow> c < 0xD800"
  by (auto simp: format_ass_time_def bindE_Inr_iff Let_def dest: lit_low fmt_0d_low str_int_low)

lemma format_srt_time_low: "format_srt_time s = Inr out \<Longrightarrow> c \<in> set out \<Longrightarrow> c < 0xD800"
  by (auto simp: format_srt_time_def bindE_Inr_iff Let_def dest: lit_low fmt_0d_low)

lemma replace_char_low:
  "\<forall>c\<in>set new. c < 0xD800 \<Longrightarrow> \<forall>c\<in>set s. c < 0xD800 \<Longrightarrow> c \<in> set (replace_char x new s) \<Longrightarrow>
     c < 0xD800"
  by (auto simp: replace_char_def split: if_splits)


lemma ass_events_ok:
  "quota w p = None \<Longrightarrow> \<forall>c\<in>set (os_linesep w). c < 0xD800 \<Longrightarrow> \<forall>c\<in>set style. c < 0xD800 \<Longrightarrow>
   \<forall>seg\<in>set segs. (\<exists>a. format_ass_time (seg_start seg) = Inr a) \<and>
      (\<exists>b. format_ass_time (seg_end seg) = Inr b) \<and> (\<forall>c\<in>set (seg_text seg). c < 0xD800) \<Longrightarrow>
     \<exists>w'. ass_events p style segs w = (Inr (), w') \<and> quota w' p = None \<and>
          os_linesep w' = os_linesep w"
proof (induction segs arbitrary: w)
  case Nil
  then show ?case by (simp add: returnIO_def)
next
  case (Cons seg segs)
  from Cons.prems(4) obtain a b where a: "format_ass_time (seg_start seg) = Inr a"
    and b: "format_ass_time (seg_end seg) = Inr b" and t: "\<forall>c\<in>set (seg_text seg). c < 0xD800"
    by auto
  let ?line = "lit ''Dialogue: 0,'' @ a @ lit '','' @ b @ lit '','' @ style @ lit '',,0,0,0,,''
      @ replace_char 10 (lit [CHR 0x5C, CHR ''N'']) (seg_text seg) @ [10]"
  have "\<forall>c\<in>set (lit [CHR 0x5C, CHR ''N'']). c < 0xD800"
    by (auto dest: lit_low)
  from replace_char_low [OF this t]
  have "\<forall>c\<in>set ?line. c < 0xD800"
    using Cons.prems(3) format_ass_time_low [OF a] format_ass_time_low [OF b]
    by (auto dest: lit_low)
  from write_text_low [OF Cons.prems(1,2) this] obtain w1 where
    w1: "write_text p ?line w = (Inr (), w1)" "quota w1 p = None" "os_linesep w1 = os_linesep w"
    by blast
  from Cons.IH [OF w1(2)] Cons.prems(2,3,4) w1(3) obtain w' where
    "ass_events p style segs w1 = (Inr (), w')" "quota w' p = None" "os_linesep w' = os_linesep w1"
    by auto
  with w1 a b show ?case by (simp add: bindIO_def liftE_def Let_def)
qed

lemma srt_entries_ok:
  "quota w p = None \<Longrightarrow> \<forall>c\<in>set (os_linesep w). c < 0xD800 \<Longrightarrow>
   \<forall>seg\<in>set segs. (\<exists>a. format_srt_time (seg_start seg) = Inr a) \<and>
      (\<exists>b. format_srt_time (seg_end seg) = Inr b) \<and> (\<forall>c\<in>set (seg_text seg). c < 0xD800) \<Longrightarrow>
     \<exists>w'. srt_entries p i segs w = (Inr (), w') \<and> quota w' p = None \<and>
          os_linesep w' = os_linesep w"
proof (induction segs arbitrary: w i)
  case Nil
  then show ?case by (simp add: returnIO_def)
next
  case (Cons seg segs)
  from Cons.prems(3) obtain a b where a: "format_srt_time (seg_start seg) = Inr a"
    and b: "format_srt_time (seg_end seg) = Inr b" and t: "\<forall>c\<in>set (seg_text seg). c < 0xD800"
    by auto
  have "\<forall>c\<in>set (str_int i @ [10]). c < 0xD800"
    by (auto dest: str_int_low)
  from write_text_low [OF Cons.prems(1,2) this] obtain w1 where
    w1: "write_text p (str_int i @ [10]) w = (Inr (), w1)" "quota w1 p = None"
      "os_linesep w1 = os_linesep w"
    by blast
  have "\<forall>c\<in>set (a @ lit '' --> '' @ b @ [10]). c < 0xD800"
    using format_srt_time_low [OF a] format_srt_time_low [OF b] by (auto dest: lit_low)
  from write_text_low [OF w1(2) _ this] Cons.prems(2) w1(3) obtain w2 where
    w2: "write_text p (a @ lit '' --> '' @ b @ [10]) w1 = (Inr (), w2)" "quota w2 p = None"
      "os_linesep w2 = os_linesep w"
    by auto
  have "\<forall>c\<in>set (seg_text seg @ [10]). c < 0xD800"
    using t by auto
  from write_text_low [OF w2(2) _ this] Cons.prems(2) w2(3) obtain w3 where
    w3: "write_text p (seg_text seg @ [10]) w2 = (Inr (), w3)" "quota w3 p = None"
      "os_linesep w3 = os_linesep w"
    by auto
  have "\<forall>c\<in>set [10::nat]. c < 0xD800"
    by simp
  from write_text_low [OF w3(2) _ this] Cons.prems(2) w3(3) obtain w4 where
    w4: "write_text p [10] w3 = (Inr (), w4)" "quota w4 p = None"
      "os_linesep w4 = os_linesep w"
    by auto
  from Cons.IH [OF w4(2), of "i + 1"] Cons.prems(2,3) w4(3) obtain w' where
    "srt_entries p (i + 1) segs w4 = (Inr (), w')" "quota w' p = None"
    "os_linesep w' = os_linesep w4"
    by auto
  with w1 w2 w3 w4 a b show ?case by (simp add: bindIO_def liftE_def)
qed

lemma open_w_ok:
  "openable w p \<Longrightarrow> \<exists>w0. open_w p w = (Inr (), w0) \<and> quota w0 = quota w \<and>
     os_linesep w0 = os_linesep w"
  by (simp add: open_w_def)

lemma export_srt_ok:
  assumes "openable w p" "quota w p = None" "\<forall>c\<in>set (os_linesep w). c < 0xD800"
    "\<forall>seg\<in>set segs. (\<exists>a. format_srt_time (seg_start seg) = Inr a) \<and>
      (\<exists>b. format_srt_time (seg_end seg) = Inr b) \<and> (\<forall>c\<in>set (seg_text seg). c < 0xD800)"
  shows "\<exists>w'. export_srt segs p w = (Inr True, w')"
proof -
  from open_w_ok [OF assms(1)] obtain w0 where w0: "open_w p w = (Inr (), w0)"
    "quota w0 = quota w" "os_linesep w0 = os_linesep w"
    by blast
  from srt_entries_ok [of w0 p segs 1] assms w0 obtain w' where
    "srt_entries p 1 segs w0 = (Inr (), w')"
    by auto
  with w0 show ?thesis
    by (simp add: export_srt_def try_except_def srt_body_def bindIO_def returnIO_def)
qed

lemma ass_header_low: "\<forall>c\<in>set style. c < 0xD800 \<Longrightarrow> \<forall>s\<in>set (ass_header style). \<forall>c\<in>set s. c < 0xD800"
  by (auto simp: ass_header_def dest: lit_low)

lemma export_ass_ok:
  assumes "openable w p" "quota w p = None" "\<forall>c\<in>set (os_linesep w). c < 0xD800"
    "\<forall>c\<in>set style. c < 0xD800"
    "\<forall>seg\<in>set segs. (\<exists>a. format_ass_time (seg_start seg) = Inr a) \<and>
      (\<exists>b. format_ass_time (seg_end seg) = Inr b) \<and> (\<forall>c\<in>set (seg_text seg). c < 0xD800)"
  shows "\<exists>w'. export_ass segs p style w = (Inr True, w')"
proof -
  from open_w_ok [OF assms(1)] obtain w0 where w0: "open_w p w = (Inr (), w0)"
    "quota w0 = quota w" "os_linesep w0 = os_linesep w"
    by blast
  from write_each_low [of w0 p "ass_header style"] ass_header_low [OF assms(4)] assms(2,3) w0
  obtain w1 where w1: "write_each p (ass_header style) w0 = (Inr (), w1)" "quota w1 p = None"
    "os_linesep w1 = os_linesep w0"
    by auto
  from ass_events_ok [of w1 p style segs] assms(3,4,5) w0 w1 obtain w' where
    "ass_events p style segs w1 = (Inr (), w')"
    by auto
  with w0 w1 show ?thesis
    by (simp add: export_ass_def try_except_def ass_body_def bindIO_def returnIO_def)
qed

lemma export_fcpxml_ok:
  assumes "fcpxml_tree segs vd fps = Inr doc" "ser doc = Some bytes" "openable w p"
    "quota w p = None"
  shows "\<exists>w'. export_fcpxml ser segs p vd fps w = (Inr True, w')"
  using assms
  by (simp add: export_fcpxml_def try_except_def fcpxml_body_def bindIO_def returnIO_def
      liftE_def open_w_def write_bytes_def)

subsection \<open>Line separators and the serializer\<close>

lemma srt_lf:
  "fst (export_srt [\<lparr>seg_start = Finite (3 / 2), seg_end = Finite (13 / 4), seg_text = lit ''hi''\<rparr>]
          (lit ''a.srt'')
          \<lparr>files = Map.empty, openable = (\<lambda>_. True), quota = (\<lambda>_. None), os_linesep = [10],
           stdout = [], print_error = (\<lambda>_ _. None)\<rparr>) = Inr True \<and>
   files
     (snd (export_srt
        [\<lparr>seg_start = Finite (3 / 2), seg_end = Finite (13 / 4), seg_text = lit ''hi''\<rparr>]
        (lit ''a.srt'')
        \<lparr>files = Map.empty, openable = (\<lambda>_. True), quota = (\<lambda>_. None), os_linesep = [10],
         stdout = [], print_error = (\<lambda>_ _. None)\<rparr>)) (lit ''a.srt'')
     = Some (''1'' @ [CHR 0x0A] @ ''00:00:01,500 --> 00:00:03,250'' @ [CHR 0x0A] @ ''hi''
             @ [CHR 0x0A] @ [CHR 0x0A])"
  by code_simp

lemma srt_crlf:
  "fst (export_srt [\<lparr>seg_start = Finite (3 / 2), seg_end = Finite (13 / 4), seg_text = lit ''hi''\<rparr>]
          (lit ''a.srt'')
          \<lparr>files = Map.empty, openable = (\<lambda>_. True), quota = (\<lambda>_. None), os_linesep = [13, 10],
           stdout = [], print_error = (\<lambda>_ _. None)\<rparr>) = Inr True \<and>
   files
     (snd (export_srt
        [\<lparr>seg_start = Finite (3 / 2), seg_end = Finite (13 / 4), seg_text = lit ''hi''\<rparr>]
        (lit ''a.srt'')
        \<lparr>files = Map.empty, openable = (\<lambda>_. True), quota = (\<lambda>_. None), os_linesep = [13, 10],
         stdout = [], print_error = (\<lambda>_ _. None)\<rparr>)) (lit ''a.srt'')
     = Some (''1'' @ [CHR 0x0D, CHR 0x0A] @ ''00:00:01,500 --> 00:00:03,250'' @ [CHR 0x0D, CHR 0x0A]
             @ ''hi'' @ [CHR 0x0D, CHR 0x0A] @ [CHR 0x0D, CHR 0x0A])"
  by code_simp


lemma script_info_lf:
  "encode_text
     \<lparr>files = Map.empty, openable = (\<lambda>_. True), quota = (\<lambda>_. None), os_linesep = [10],
      stdout = [], print_error = (\<lambda>_ _. None)\<rparr> (lit ''[Script Info]'' @ [10])
   = Inr (''[Script Info]'' @ [CHR 0x0A])"
  by code_simp

lemma script_info_crlf:
  "encode_text
     \<lparr>files = Map.empty, openable = (\<lambda>_. True), quota = (\<lambda>_. None), os_linesep = [13, 10],
      stdout = [], print_error = (\<lambda>_ _. None)\<rparr> (lit ''[Script Info]'' @ [10])
   = Inr (''[Script Info]'' @ [CHR 0x0D, CHR 0x0A])"
  by code_simp

lemma ass_header_first:
  "concat (ass_header style) = (lit ''[Script Info]'' @ [10]) @ concat (tl (ass_header style))"
  by (simp add: ass_header_def)

lemma export_ass_starts:
  assumes "export_ass segs p style w = (Inr True, w')"
    and "encode_text w (lit ''[Script Info]'' @ [10]) = Inr first"
  shows "\<exists>rest. files w' p = Some (first @ rest)"
proof -
  from export_ass_content [OF assms(1)] obtain lines bytes where
    "files w' p = Some bytes"
    "encode_text w (concat (ass_header style) @ concat lines) = Inr bytes"
    by blast
  moreover from this(2) have "encode_text w
      ((lit ''[Script Info]'' @ [10]) @ (concat (tl (ass_header style)) @ concat lines)) = Inr bytes"
    by (simp only: ass_header_first append_assoc)
  then obtain x y where "encode_text w (lit ''[Script Info]'' @ [10]) = Inr x" "bytes = x @ y"
    unfolding encode_text_append by blast
  ultimately show ?thesis using assms(2) by auto
qed

text \<open>
  C9, as stated, fails for the two text formats: \<open>open(path, 'w')\<close> writes the platform's
  line separator for every \<open>'\n'\<close>. The same segment exported to the same path, once where
  the separator is LF and once where it is CR LF: both exports return \<open>True\<close>, and the
  files differ.
\<close>

theorem text_exports_follow_line_separator:
  "fst (export_srt [\<lparr>seg_start = Finite (3 / 2), seg_end = Finite (13 / 4), seg_text = lit ''hi''\<rparr>]
          (lit ''a.srt'')
          \<lparr>files = Map.empty, openable = (\<lambda>_. True), quota = (\<lambda>_. None), os_linesep = [10],
           stdout = [], print_error = (\<lambda>_ _. None)\<rparr>) = Inr True \<and>
   fst (export_srt [\<lparr>seg_start = Finite (3 / 2), seg_end = Finite (13 / 4), seg_text = lit ''hi''\<rparr>]
          (lit ''a.srt'')
          \<lparr>files = Map.empty, openable = (\<lambda>_. True), quota = (\<lambda>_. None), os_linesep = [13, 10],
           stdout = [], print_error = (\<lambda>_ _. None)\<rparr>) = Inr True \<and>
   files
     (snd (export_srt
        [\<lparr>seg_start = Finite (3 / 2), seg_end = Finite (13 / 4), seg_text = lit ''hi''\<rparr>]
        (lit ''a.srt'')
        \<lparr>files = Map.empty, openable = (\<lambda>_. True), quota = (\<lambda>_. None), os_linesep = [10],
         stdout = [], print_error = (\<lambda>_ _. None)\<rparr>)) (lit ''a.srt'')
     = Some (''1'' @ [CHR 0x0A] @ ''00:00:01,500 --> 00:00:03,250'' @ [CHR 0x0A] @ ''hi''
             @ [CHR 0x0A] @ [CHR 0x0A]) \<and>
   files
     (snd (export_srt
        [\<lparr>seg_start = Finite (3 / 2), seg_end = Finite (13 / 4), seg_text = lit ''hi''\<rparr>]
        (lit ''a.srt'')
        \<lparr>files = Map.empty, openable = (\<lambda>_. True), quota = (\<lambda>_. None), os_linesep = [13, 10],
         stdout = [], print_error = (\<lambda>_ _. None)\<rparr>)) (lit ''a.srt'')
     = Some (''1'' @ [CHR 0x0D, CHR 0x0A] @ ''00:00:01,500 --> 00:00:03,250'' @ [CHR 0x0D, CHR 0x0A]
             @ ''hi'' @ [CHR 0x0D, CHR 0x0A] @ [CHR 0x0D, CHR 0x0A]) \<and>
   files
     (snd (export_srt
        [\<lparr>seg_start = Finite (3 / 2), seg_end = Finite (13 / 4), seg_text = lit ''hi''\<rparr>]
        (lit ''a.srt'')
        \<lparr>files = Map.empty, openable = (\<lambda>_. True), quota = (\<lambda>_. None), os_linesep = [10],
         stdout = [], print_error = (\<lambda>_ _. None)\<rparr>)) (lit ''a.srt'')
     \<noteq> files
     (snd (export_srt
        [\<lparr>seg_start = Finite (3 / 2), seg_end = Finite (13 / 4), seg_text = lit ''hi''\<rparr>]
        (lit ''a.srt'')
        \<lparr>files = Map.empty, openable = (\<lambda>_. True), quota = (\<lambda>_. None), os_linesep = [13, 10],
         stdout = [], print_error = (\<lambda>_ _. None)\<rparr>)) (lit ''a.srt'') \<and>
   (\<exists>a b.
      export_ass [\<lparr>seg_start = Finite (3 / 2), seg_end = Finite (13 / 4), seg_text = lit ''hi''\<rparr>]
        (lit ''a.ass'') (lit ''Default'')
        \<lparr>files = Map.empty, openable = (\<lambda>_. True), quota = (\<lambda>_. None), os_linesep = [10],
         stdout = [], print_error = (\<lambda>_ _. None)\<rparr> = (Inr True, a) \<and>
      export_ass [\<lparr>seg_start = Finite (3 / 2), seg_end = Finite (13 / 4), seg_text = lit ''hi''\<rparr>]
        (lit ''a.ass'') (lit ''Default'')
        \<lparr>files = Map.empty, openable = (\<lambda>_. True), quota = (\<lambda>_. None), os_linesep = [13, 10],
         stdout = [], print_error = (\<lambda>_ _. None)\<rparr> = (Inr True, b) \<and>
      files a (lit ''a.ass'') \<noteq> files b (lit ''a.ass''))"
proof -
  let ?seg = "\<lparr>seg_start = Finite (3 / 2), seg_end = Finite (13 / 4), seg_text = lit ''hi''\<rparr>"
  let ?lf = "\<lparr>files = Map.empty, openable = (\<lambda>_. True), quota = (\<lambda>_. None), os_linesep = [10],
         stdout = [], print_error = (\<lambda>_ _. None)\<rparr>"
  let ?crlf = "\<lparr>files = Map.empty, openable = (\<lambda>_. True), quota = (\<lambda>_. None),
         os_linesep = [13, 10], stdout = [], print_error = (\<lambda>_ _. None)\<rparr>"
  have "\<exists>w'. export_ass [?seg] (lit ''a.ass'') (lit ''Default'') ?lf = (Inr True, w')"
    by (rule export_ass_ok) (auto simp: ass_time_1_5 ass_time_3_25 dest: lit_low)
  then obtain a where a: "export_ass [?seg] (lit ''a.ass'') (lit ''Default'') ?lf = (Inr True, a)" ..
  have "\<exists>w'. export_ass [?seg] (lit ''a.ass'') (lit ''Default'') ?crlf = (Inr True, w')"
    by (rule export_ass_ok) (auto simp: ass_time_1_5 ass_time_3_25 dest: lit_low)
  then obtain b where b: "export_ass [?seg] (lit ''a.ass'') (lit ''Default'') ?crlf = (Inr True, b)" ..
  from export_ass_starts [OF a script_info_lf] obtain ra where
    ra: "files a (lit ''a.ass'') = Some ((''[Script Info]'' @ [CHR 0x0A]) @ ra)" ..
  from export_ass_starts [OF b script_info_crlf] obtain rb where
    rb: "files b (lit ''a.ass'') = Some ((''[Script Info]'' @ [CHR 0x0D, CHR 0x0A]) @ rb)" ..
  from ra rb have "files a (lit ''a.ass'') \<noteq> files b (lit ''a.ass'')"
    by simp
  with a b have "\<exists>a b.
      export_ass [?seg] (lit ''a.ass'') (lit ''Default'') ?lf = (Inr True, a) \<and>
      export_ass [?seg] (lit ''a.ass'') (lit ''Default'') ?crlf = (Inr True, b) \<and>
      files a (lit ''a.ass'') \<noteq> files b (lit ''a.ass'')"
    by blast
  moreover have "files (snd (export_srt [?seg] (lit ''a.srt'') ?lf)) (lit ''a.srt'')
      \<noteq> files (snd (export_srt [?seg] (lit ''a.srt'') ?crlf)) (lit ''a.srt'')"
    using srt_lf srt_crlf by simp
  ultimately show ?thesis
    using srt_lf srt_crlf by blast
qed

text \<open>
  C9, amended. Two successful runs of the same export on the same segments and
  parameters, whatever the two worlds held before (other files, an older version of the
  output file, earlier messages) and whatever the two output paths are:
  for SRT and ASS, which are written in text mode, the two files hold the same bytes when
  the two runs have the same line separator; for FCPXML, which is written in binary mode,
  each file holds what the XML library's serializer gives for one and the same document,
  the one built from the segments, the duration and the frame rate, so the two files hold
  the same bytes when the serializer is the same function in both runs.
\<close>

theorem serialization_deterministic_per_platform:
  "(export_srt segments path1 w1 = (Inr True, w1') \<and>
    export_srt segments path2 w2 = (Inr True, w2') \<and> os_linesep w1 = os_linesep w2 \<longrightarrow>
      files w1' path1 = files w2' path2 \<and> files w1' path1 \<noteq> None) \<and>
   (export_ass segments path1 style_name w1 = (Inr True, w1') \<and>
    export_ass segments path2 style_name w2 = (Inr True, w2') \<and> os_linesep w1 = os_linesep w2 \<longrightarrow>
      files w1' path1 = files w2' path2 \<and> files w1' path1 \<noteq> None) \<and>
   (export_fcpxml toprettyxml1 segments path1 video_duration fps w1 = (Inr True, w1') \<and>
    export_fcpxml toprettyxml2 segments path2 video_duration fps w2 = (Inr True, w2') \<longrightarrow>
      (\<exists>doc. fcpxml_tree segments video_duration fps = Inr doc \<and>
         files w1' path1 = toprettyxml1 doc \<and> files w2' path2 = toprettyxml2 doc \<and>
         files w1' path1 \<noteq> None \<and> files w2' path2 \<noteq> None) \<and>
      (toprettyxml1 = toprettyxml2 \<longrightarrow> files w1' path1 = files w2' path2))"
proof -
  have fcp: "\<exists>doc. fcpxml_tree segments video_duration fps = Inr doc \<and>
         files w1' path1 = toprettyxml1 doc \<and> files w2' path2 = toprettyxml2 doc \<and>
         files w1' path1 \<noteq> None \<and> files w2' path2 \<noteq> None"
    if "export_fcpxml toprettyxml1 segments path1 video_duration fps w1 = (Inr True, w1')"
      "export_fcpxml toprettyxml2 segments path2 video_duration fps w2 = (Inr True, w2')"
    using export_fcpxml_content [OF that(1)] export_fcpxml_content [OF that(2)] by auto
  have same: "files w1' path1 = files w2' path2"
    if "export_fcpxml toprettyxml1 segments path1 video_duration fps w1 = (Inr True, w1')"
      "export_fcpxml toprettyxml2 segments path2 video_duration fps w2 = (Inr True, w2')"
      "toprettyxml1 = toprettyxml2"
    using fcp [OF that(1,2)] that(3) by auto
  have srt: "export_srt segments path1 w1 = (Inr True, w1') \<and>
    export_srt segments path2 w2 = (Inr True, w2') \<and> os_linesep w1 = os_linesep w2 \<longrightarrow>
      files w1' path1 = files w2' path2 \<and> files w1' path1 \<noteq> None"
    using export_srt_deterministic [of segments path1 w1 w1' path2 w2 w2'] by blast
  have ass: "export_ass segments path1 style_name w1 = (Inr True, w1') \<and>
    export_ass segments path2 style_name w2 = (Inr True, w2') \<and> os_linesep w1 = os_linesep w2 \<longrightarrow>
      files w1' path1 = files w2' path2 \<and> files w1' path1 \<noteq> None"
    using export_ass_deterministic [of segments path1 style_name w1 w1' path2 w2 w2'] by blast
  have xml: "export_fcpxml toprettyxml1 segments path1 video_duration fps w1 = (Inr True, w1') \<and>
    export_fcpxml toprettyxml2 segments path2 video_duration fps w2 = (Inr True, w2') \<longrightarrow>
      (\<exists>doc. fcpxml_tree segments video_duration fps = Inr doc \<and>
         files w1' path1 = toprettyxml1 doc \<and> files w2' path2 = toprettyxml2 doc \<and>
         files w1' path1 \<noteq> None \<and> files w2' path2 \<noteq> None) \<and>
      (toprettyxml1 = toprettyxml2 \<longrightarrow> files w1' path1 = files w2' path2)"
    using fcp same by blast
  from srt ass xml show ?thesis by (intro conjI)
qed

subsection \<open>Two worked exports\<close>

text \<open>One segment with a line break in its text, written to an empty file system.\<close>

theorem ass_file_layout_witness:
  "\<exists>w' bytes.
     export_ass
       [\<lparr>seg_start = Finite (3 / 2), seg_end = Finite (13 / 4),
         seg_text = lit ''hi'' @ [10] @ lit ''you''\<rparr>]
       (lit ''a.ass'') (lit ''Default'')
       \<lparr>files = Map.empty, openable = (\<lambda>_. True), quota = (\<lambda>_. None), os_linesep = [10],
        stdout = [],
        print_error = (\<lambda>_ _. None)\<rparr> = (Inr True, w') \<and>
     files w' (lit ''a.ass'') = Some bytes \<and>
     encode_text
       \<lparr>files = Map.empty, openable = (\<lambda>_. True), quota = (\<lambda>_. None), os_linesep = [10],
        stdout = [],
        print_error = (\<lambda>_ _. None)\<rparr>
       (concat (ass_header (lit ''Default''))
        @ lit ''Dialogue: 0,'' @ lit ''0:00:01.50'' @ lit '','' @ lit ''0:00:03.25'' @ lit '',''
        @ lit ''Default'' @ lit '',,0,0,0,,'' @ lit ''hi'' @ lit [CHR 0x5C, CHR ''N''] @ lit ''you''
        @ [10]) = Inr bytes"
proof -
  let ?seg = "\<lparr>seg_start = Finite (3 / 2), seg_end = Finite (13 / 4),
                seg_text = lit ''hi'' @ [10] @ lit ''you''\<rparr>"
  let ?w = "\<lparr>files = Map.empty, openable = (\<lambda>_. True), quota = (\<lambda>_. None), os_linesep = [10],
             stdout = [],
        print_error = (\<lambda>_ _. None)\<rparr>"
  have "\<exists>w'. export_ass [?seg] (lit ''a.ass'') (lit ''Default'') ?w = (Inr True, w')"
    by (rule export_ass_ok) (auto simp: ass_time_1_5 ass_time_3_25 dest: lit_low)
  then obtain w' where ok: "export_ass [?seg] (lit ''a.ass'') (lit ''Default'') ?w = (Inr True, w')"
    ..
  from ass_file_layout [OF ok] obtain lines bytes where bytes: "files w' (lit ''a.ass'') = Some bytes"
    "encode_text ?w (concat (ass_header (lit ''Default'')) @ concat lines) = Inr bytes"
    and len: "length lines = 1"
    and line: "\<exists>start_time end_time.
          format_ass_time (seg_start ([?seg] ! 0)) = Inr start_time \<and>
          format_ass_time (seg_end ([?seg] ! 0)) = Inr end_time \<and>
          lines ! 0 = lit ''Dialogue: 0,'' @ start_time @ lit '','' @ end_time @ lit '',''
            @ lit ''Default'' @ lit '',,0,0,0,,''
            @ replace_char 10 (lit [CHR 0x5C, CHR ''N'']) (seg_text ([?seg] ! 0)) @ [10]"
    by auto
  have rep: "replace_char 10 (lit [CHR 0x5C, CHR ''N'']) (lit ''hi'' @ 10 # lit ''you'')
      = lit ''hi'' @ lit [CHR 0x5C, CHR ''N''] @ lit ''you''"
    by (simp add: replace_char_def lit_def)
  from line have "lines ! 0 = lit ''Dialogue: 0,'' @ lit ''0:00:01.50'' @ lit '','' @ lit ''0:00:03.25''
      @ lit '','' @ lit ''Default'' @ lit '',,0,0,0,,'' @ lit ''hi'' @ lit [CHR 0x5C, CHR ''N'']
      @ lit ''you'' @ [10]"
    by (auto simp: ass_time_1_5 ass_time_3_25 rep)
  with len have "concat lines = lit ''Dialogue: 0,'' @ lit ''0:00:01.50'' @ lit '','' @ lit ''0:00:03.25''
      @ lit '','' @ lit ''Default'' @ lit '',,0,0,0,,'' @ lit ''hi'' @ lit [CHR 0x5C, CHR ''N'']
      @ lit ''you'' @ [10]"
    by (cases lines) simp_all
  then show ?thesis using ok bytes
    by auto
qed


text \<open>
  The same exports on an empty file system and on one that already holds the output file,
  under another path.
\<close>

theorem serialization_deterministic_per_platform_witness:
  "\<exists>a a' b b' c c'.
     export_srt [\<lparr>seg_start = Finite (3 / 2), seg_end = Finite (13 / 4), seg_text = lit ''hi''\<rparr>]
       (lit ''a.srt'')
       \<lparr>files = Map.empty, openable = (\<lambda>_. True), quota = (\<lambda>_. None), os_linesep = [10],
        stdout = [],
        print_error = (\<lambda>_ _. None)\<rparr> = (Inr True, a) \<and>
     export_srt [\<lparr>seg_start = Finite (3 / 2), seg_end = Finite (13 / 4), seg_text = lit ''hi''\<rparr>]
       (lit ''b.srt'')
       \<lparr>files = [lit ''b.srt'' \<mapsto> ''old''], openable = (\<lambda>_. True), quota = (\<lambda>_. None),
        os_linesep = [10], stdout = [(''Error exporting SRT: '', OSError)],
        print_error = (\<lambda>_ _. None)\<rparr> = (Inr True, a') \<and>
     files a (lit ''a.srt'') = files a' (lit ''b.srt'') \<and> files a (lit ''a.srt'') \<noteq> None \<and>
     export_ass [\<lparr>seg_start = Finite (3 / 2), seg_end = Finite (13 / 4), seg_text = lit ''hi''\<rparr>]
       (lit ''a.ass'') (lit ''Default'')
       \<lparr>files = Map.empty, openable = (\<lambda>_. True), quota = (\<lambda>_. None), os_linesep = [10],
        stdout = [],
        print_error = (\<lambda>_ _. None)\<rparr> = (Inr True, b) \<and>
     export_ass [\<lparr>seg_start = Finite (3 / 2), seg_end = Finite (13 / 4), seg_text = lit ''hi''\<rparr>]
       (lit ''b.ass'') (lit ''Default'')
       \<lparr>files = [lit ''b.ass'' \<mapsto> ''old''], openable = (\<lambda>_. True), quota = (\<lambda>_. None),
        os_linesep = [10], stdout = [(''Error exporting SRT: '', OSError)],
        print_error = (\<lambda>_ _. None)\<rparr> = (Inr True, b') \<and>
     files b (lit ''a.ass'') = files b' (lit ''b.ass'') \<and> files b (lit ''a.ass'') \<noteq> None \<and>
     export_fcpxml (\<lambda>doc. Some ''<fcpxml/>'')
       [\<lparr>seg_start = Finite 2, seg_end = Finite 2, seg_text = lit ''hi''\<rparr>]
       (lit ''a.fcpxml'') None (Finite 30)
       \<lparr>files = Map.empty, openable = (\<lambda>_. True), quota = (\<lambda>_. None), os_linesep = [10],
        stdout = [],
        print_error = (\<lambda>_ _. None)\<rparr> = (Inr True, c) \<and>
     export_fcpxml (\<lambda>doc. Some ''<fcpxml/>'')
       [\<lparr>seg_start = Finite 2, seg_end = Finite 2, seg_text = lit ''hi''\<rparr>]
       (lit ''b.fcpxml'') None (Finite 30)
       \<lparr>files = [lit ''b.fcpxml'' \<mapsto> ''old''], openable = (\<lambda>_. True), quota = (\<lambda>_. None),
        os_linesep = [13, 10], stdout = [],
        print_error = (\<lambda>_ _. None)\<rparr> = (Inr True, c') \<and>
     files c (lit ''a.fcpxml'') = files c' (lit ''b.fcpxml'') \<and> files c (lit ''a.fcpxml'') \<noteq> None"
proof -
  let ?seg = "\<lparr>seg_start = Finite (3 / 2), seg_end = Finite (13 / 4), seg_text = lit ''hi''\<rparr>"
  let ?zero = "\<lparr>seg_start = Finite 2, seg_end = Finite 2, seg_text = lit ''hi''\<rparr>"
  let ?wa = "\<lparr>files = Map.empty, openable = (\<lambda>_. True), quota = (\<lambda>_. None), os_linesep = [10],
        stdout = [],
        print_error = (\<lambda>_ _. None)\<rparr>"
  let ?wb = "\<lambda>p. \<lparr>files = [p \<mapsto> ''old''], openable = (\<lambda>_. True), quota = (\<lambda>_. None),
        os_linesep = [10], stdout = [(''Error exporting SRT: '', OSError)],
        print_error = (\<lambda>_ _. None)\<rparr>"
  let ?wc = "\<lparr>files = [lit ''b.fcpxml'' \<mapsto> ''old''], openable = (\<lambda>_. True),
        quota = (\<lambda>_. None), os_linesep = [13, 10], stdout = [],
        print_error = (\<lambda>_ _. None)\<rparr>"
  let ?ser = "\<lambda>doc :: xml. Some ''<fcpxml/>''"
  have "\<exists>w'. export_srt [?seg] (lit ''a.srt'') ?wa = (Inr True, w')"
    by (rule export_srt_ok) (auto simp: srt_time_1_5 srt_time_3_25 dest: lit_low)
  then obtain a where a: "export_srt [?seg] (lit ''a.srt'') ?wa = (Inr True, a)" ..
  have "\<exists>w'. export_srt [?seg] (lit ''b.srt'') (?wb (lit ''b.srt'')) = (Inr True, w')"
    by (rule export_srt_ok) (auto simp: srt_time_1_5 srt_time_3_25 dest: lit_low)
  then obtain a' where a': "export_srt [?seg] (lit ''b.srt'') (?wb (lit ''b.srt'')) = (Inr True, a')" ..
  have "\<exists>w'. export_ass [?seg] (lit ''a.ass'') (lit ''Default'') ?wa = (Inr True, w')"
    by (rule export_ass_ok) (auto simp: ass_time_1_5 ass_time_3_25 dest: lit_low)
  then obtain b where b: "export_ass [?seg] (lit ''a.ass'') (lit ''Default'') ?wa = (Inr True, b)" ..
  have "\<exists>w'. export_ass [?seg] (lit ''b.ass'') (lit ''Default'') (?wb (lit ''b.ass''))
      = (Inr True, w')"
    by (rule export_ass_ok) (auto simp: ass_time_1_5 ass_time_3_25 dest: lit_low)
  then obtain b' where b': "export_ass [?seg] (lit ''b.ass'') (lit ''Default'') (?wb (lit ''b.ass''))
      = (Inr True, b')" ..
  from zero_span_tree obtain doc where doc: "fcpxml_tree [?zero] None (Finite 30) = Inr doc" ..
  have "\<exists>w'. export_fcpxml ?ser [?zero] (lit ''a.fcpxml'') None (Finite 30) ?wa = (Inr True, w')"
    by (rule export_fcpxml_ok [OF doc]) simp_all
  then obtain c where c: "export_fcpxml ?ser [?zero] (lit ''a.fcpxml'') None (Finite 30) ?wa
      = (Inr True, c)" ..
  have "\<exists>w'. export_fcpxml ?ser [?zero] (lit ''b.fcpxml'') None (Finite 30) ?wc = (Inr True, w')"
    by (rule export_fcpxml_ok [OF doc]) simp_all
  then obtain c' where c': "export_fcpxml ?ser [?zero] (lit ''b.fcpxml'') None (Finite 30) ?wc
      = (Inr True, c')" ..
  note det = serialization_deterministic_per_platform
  have 1: "files a (lit ''a.srt'') = files a' (lit ''b.srt'') \<and> files a (lit ''a.srt'') \<noteq> None"
    by (rule det [where segments = "[?seg]" and ?w1.0 = ?wa and ?w2.0 = "?wb (lit ''b.srt'')"
          and ?path1.0 = "lit ''a.srt''" and ?path2.0 = "lit ''b.srt''" and w1' = a and w2' = a',
          THEN conjunct1, rule_format])
      (simp add: a a')
  have 2: "files b (lit ''a.ass'') = files b' (lit ''b.ass'') \<and> files b (lit ''a.ass'') \<noteq> None"
    by (rule det [where segments = "[?seg]" and ?w1.0 = ?wa and ?w2.0 = "?wb (lit ''b.ass'')"
          and ?path1.0 = "lit ''a.ass''" and ?path2.0 = "lit ''b.ass''" and w1' = b and w2' = b'
          and style_name = "lit ''Default''", THEN conjunct2, THEN conjunct1, rule_format])
      (simp add: b b')
  have "(\<exists>doc. fcpxml_tree [?zero] None (Finite 30) = Inr doc \<and>
           files c (lit ''a.fcpxml'') = ?ser doc \<and> files c' (lit ''b.fcpxml'') = ?ser doc \<and>
           files c (lit ''a.fcpxml'') \<noteq> None \<and> files c' (lit ''b.fcpxml'') \<noteq> None) \<and>
        (?ser = ?ser \<longrightarrow> files c (lit ''a.fcpxml'') = files c' (lit ''b.fcpxml''))"
    by (rule det [where segments = "[?zero]" and ?w1.0 = ?wa and ?w2.0 = ?wc
          and ?toprettyxml1.0 = ?ser and ?toprettyxml2.0 = ?ser and ?path1.0 = "lit ''a.fcpxml''"
          and ?path2.0 = "lit ''b.fcpxml''" and w1' = c and w2' = c' and video_duration = None
          and fps = "Finite 30", THEN conjunct2, THEN conjunct2, rule_format])
      (simp add: c c')
  then have 3: "files c (lit ''a.fcpxml'') = files c' (lit ''b.fcpxml'') \<and>
      files c (lit ''a.fcpxml'') \<noteq> None"
    by blast
  from a a' b b' c c' 1 2 3 show ?thesis
    by blast
qed

subsection \<open>The translation stages\<close>

lemma strip_software: "strip [0x8F6F, 0x4EF6] = [0x8F6F, 0x4EF6]"
  by (simp add: strip_def isspace_def)

text \<open>
  C1, as stated, fails: without OpenCC (\<open>s2t_converter\<close> is \<open>None\<close>) the MarianMT stage
  accepts the Simplified answer as it is, returns it and caches it.
\<close>

theorem mt_output_unconverted_without_normalizer:
  "fst (marian_stage ascii_lower
          \<lparr>s2t_converter = None, translation_cache = Map.empty,
           translation_model = (\<lambda>_. Some [0x8F6F, 0x4EF6])\<rparr>
          (lit ''software'')) = Some [0x8F6F, 0x4EF6] \<and>
   translation_cache
     (snd (marian_stage ascii_lower
          \<lparr>s2t_converter = None, translation_cache = Map.empty,
           translation_model = (\<lambda>_. Some [0x8F6F, 0x4EF6])\<rparr>
          (lit ''software''))) (lit ''software'') = Some [0x8F6F, 0x4EF6] \<and>
   [0x8F6F, 0x4EF6] \<noteq> [0x8EDF, 0x4EF6 :: nat]"
  by (simp add: marian_stage_def strip_software lit_def ascii_lower_def Let_def)

text \<open>
  C1, amended. When a normalizer is configured, every answer the MarianMT stage accepts
  (not empty, not blank, different from the phrase) goes through it before it is returned
  and cached under the lowercased phrase; so with a normalizer that turns the Simplified
  word into the Traditional one, that answer is emitted as the Traditional word. Without a
  normalizer the answer is returned and cached as the model gave it.
\<close>

theorem mt_output_normalized_when_available:
  assumes "translation_model self text = Some raw" "raw \<noteq> []" "strip raw \<noteq> []" "raw \<noteq> text"
  shows "(s2t_converter self = Some convert \<longrightarrow>
            marian_stage lower self text =
              (Some (convert raw),
               self\<lparr>translation_cache := (translation_cache self)(lower text \<mapsto> convert raw)\<rparr>)) \<and>
         (s2t_converter self = Some convert \<and> raw = [0x8F6F, 0x4EF6] \<and>
          convert [0x8F6F, 0x4EF6] = [0x8EDF, 0x4EF6] \<longrightarrow>
            fst (marian_stage lower self text) = Some [0x8EDF, 0x4EF6]) \<and>
         (s2t_converter self = None \<longrightarrow>
            marian_stage lower self text =
              (Some raw, self\<lparr>translation_cache := (translation_cache self)(lower text \<mapsto> raw)\<rparr>))"
  using assms by (auto simp: marian_stage_def Let_def)

text \<open>A normalizer that only knows the one character, on the phrase \<open>Software\<close>.\<close>

theorem mt_output_normalized_when_available_witness:
  "marian_stage ascii_lower
     \<lparr>s2t_converter = Some (map (\<lambda>c. if c = 0x8F6F then 0x8EDF else c)),
      translation_cache = Map.empty,
      translation_model = (\<lambda>_. Some [0x8F6F, 0x4EF6])\<rparr>
     (lit ''Software'') =
   (Some [0x8EDF, 0x4EF6],
    \<lparr>s2t_converter = Some (map (\<lambda>c. if c = 0x8F6F then 0x8EDF else c)),
     translation_cache = [lit ''software'' \<mapsto> [0x8EDF, 0x4EF6]],
     translation_model = (\<lambda>_. Some [0x8F6F, 0x4EF6])\<rparr>)"
proof -
  let ?conv = "map (\<lambda>c::nat. if c = 0x8F6F then 0x8EDF else c)"
  let ?self = "\<lparr>s2t_converter = Some ?conv, translation_cache = Map.empty,
      translation_model = (\<lambda>_. Some [0x8F6F, 0x4EF6])\<rparr>"
  have low: "ascii_lower (lit ''Software'') = lit ''software''"
    by (simp add: ascii_lower_def lit_def)
  have "marian_stage ascii_lower ?self (lit ''Software'') =
      (Some (?conv [0x8F6F, 0x4EF6]),
       ?self\<lparr>translation_cache :=
          (translation_cache ?self)(ascii_lower (lit ''Software'') \<mapsto> ?conv [0x8F6F, 0x4EF6])\<rparr>)"
    by (rule mt_output_normalized_when_available [where self = ?self and raw = "[0x8F6F, 0x4EF6]",
          THEN conjunct1, rule_format])
      (simp_all add: strip_software lit_def)
  then show ?thesis by (simp add: low)
qed


text \<open>
  C7, as stated, fails where it calls the cached value normalized: without OpenCC
  (\<open>s2t_converter\<close> is \<open>None\<close>) a Simplified answer of the LLM, or of the MT model, is
  cached as it came.
\<close>

theorem cache_holds_simplified_without_normalizer:
  "qwen_stage ascii_lower
     \<lparr>s2t_converter = None, translation_cache = Map.empty, translation_model = (\<lambda>_. None)\<rparr>
     (lit ''software'') (Some [0x8F6F, 0x4EF6])
     = (Some [0x8F6F, 0x4EF6],
        \<lparr>s2t_converter = None,
         translation_cache = [lit ''software'' \<mapsto> [0x8F6F, 0x4EF6]],
         translation_model = (\<lambda>_. None)\<rparr>) \<and>
   marian_stage ascii_lower
     \<lparr>s2t_converter = None, translation_cache = Map.empty,
      translation_model = (\<lambda>_. Some [0x8F6F, 0x4EF6])\<rparr>
     (lit ''software'')
     = (Some [0x8F6F, 0x4EF6],
        \<lparr>s2t_converter = None,
         translation_cache = [lit ''software'' \<mapsto> [0x8F6F, 0x4EF6]],
         translation_model = (\<lambda>_. Some [0x8F6F, 0x4EF6])\<rparr>) \<and>
   [0x8F6F, 0x4EF6] \<noteq> [0x8EDF, 0x4EF6 :: nat]"
proof -
  have low: "ascii_lower (lit ''software'') = lit ''software''"
    by (simp add: ascii_lower_def lit_def)
  have ne: "[0x8F6F, 0x4EF6] \<noteq> lit ''software''"
    by (simp add: lit_def)
  show ?thesis
    by (simp add: qwen_stage_def marian_stage_def strip_software startswith_def low ne Let_def)
qed

text \<open>
  C7, amended. When the Qwen stage or the MarianMT stage returns a translation of a
  phrase, the cache it leaves is the old cache with the lowercased phrase mapped to exactly
  the text returned to the caller. That text is the converter's output for the stage's
  candidate when a converter is configured, and the candidate itself when none is. A stage
  that returns nothing leaves the processor as it was.
\<close>

theorem cache_holds_returned_translation:
  "(qwen_stage lower self text answer = (Some returned, self') \<longrightarrow>
      translation_cache self' = (translation_cache self)(lower text \<mapsto> returned) \<and>
      translation_cache self' (lower text) = Some returned \<and>
      (\<exists>raw candidate. answer = Some raw \<and>
         candidate = remove_prefixes
           [[0x7E41, 0x9AD4, 0x4E2D, 0x6587, 0xFF1A], [0x7FFB, 0x8B6F, 0xFF1A],
            [0x7D50, 0x679C, 0xFF1A]] (strip raw) \<and>
         returned = (case s2t_converter self of Some convert \<Rightarrow> convert candidate
                     | None \<Rightarrow> candidate))) \<and>
   (marian_stage lower self text = (Some returned, self') \<longrightarrow>
      translation_cache self' = (translation_cache self)(lower text \<mapsto> returned) \<and>
      translation_cache self' (lower text) = Some returned \<and>
      (\<exists>candidate. translation_model self text = Some candidate \<and>
         returned = (case s2t_converter self of Some convert \<Rightarrow> convert candidate
                     | None \<Rightarrow> candidate))) \<and>
   (qwen_stage lower self text answer = (None, self') \<longrightarrow> self' = self) \<and>
   (marian_stage lower self text = (None, self') \<longrightarrow> self' = self)"
  by (auto simp: qwen_stage_def marian_stage_def Let_def simp del: remove_prefixes.simps
      split: option.splits if_splits)

text \<open>
  The phrase \<open>Software\<close>: the LLM answers with a prefixed, padded Simplified word; the MT
  model with the bare word. The normalizer only knows the one character.
\<close>

theorem cache_holds_returned_translation_witness:
  "qwen_stage ascii_lower
     \<lparr>s2t_converter = Some (map (\<lambda>c. if c = 0x8F6F then 0x8EDF else c)),
      translation_cache = Map.empty, translation_model = (\<lambda>_. None)\<rparr>
     (lit ''Software'') (Some ([0x20, 0x7FFB, 0x8B6F, 0xFF1A, 0x20, 0x8F6F, 0x4EF6, 0x0A]))
     = (Some [0x8EDF, 0x4EF6],
        \<lparr>s2t_converter = Some (map (\<lambda>c. if c = 0x8F6F then 0x8EDF else c)),
         translation_cache = [lit ''software'' \<mapsto> [0x8EDF, 0x4EF6]],
         translation_model = (\<lambda>_. None)\<rparr>) \<and>
   marian_stage ascii_lower
     \<lparr>s2t_converter = Some (map (\<lambda>c. if c = 0x8F6F then 0x8EDF else c)),
      translation_cache = Map.empty, translation_model = (\<lambda>_. Some [0x8F6F, 0x4EF6])\<rparr>
     (lit ''Software'')
     = (Some [0x8EDF, 0x4EF6],
        \<lparr>s2t_converter = Some (map (\<lambda>c. if c = 0x8F6F then 0x8EDF else c)),
         translation_cache = [lit ''software'' \<mapsto> [0x8EDF, 0x4EF6]],
         translation_model = (\<lambda>_. Some [0x8F6F, 0x4EF6])\<rparr>)"
proof -
  let ?conv = "map (\<lambda>c::nat. if c = 0x8F6F then 0x8EDF else c)"
  let ?q = "\<lparr>s2t_converter = Some ?conv, translation_cache = Map.empty,
      translation_model = (\<lambda>_. None)\<rparr>"
  let ?m = "\<lparr>s2t_converter = Some ?conv, translation_cache = Map.empty,
      translation_model = (\<lambda>_. Some [0x8F6F, 0x4EF6])\<rparr>"
  let ?answer = "Some ([0x20, 0x7FFB, 0x8B6F, 0xFF1A, 0x20, 0x8F6F, 0x4EF6, 0x0A :: nat])"
  have low: "ascii_lower (lit ''Software'') = lit ''software''"
    by (simp add: ascii_lower_def lit_def)
  have clean: "remove_prefixes
      [[0x7E41, 0x9AD4, 0x4E2D, 0x6587, 0xFF1A], [0x7FFB, 0x8B6F, 0xFF1A], [0x7D50, 0x679C, 0xFF1A]]
      (strip [0x20, 0x7FFB, 0x8B6F, 0xFF1A, 0x20, 0x8F6F, 0x4EF6, 0x0A]) = [0x8F6F, 0x4EF6]"
    by (simp add: strip_def isspace_def startswith_def)
  obtain rq sq where q: "qwen_stage ascii_lower ?q (lit ''Software'') ?answer = (rq, sq)"
    by (cases "qwen_stage ascii_lower ?q (lit ''Software'') ?answer")
  have "rq \<noteq> None"
    using q by (auto simp: qwen_stage_def clean lit_def Let_def simp del: remove_prefixes.simps)
  then obtain r where rq: "rq = Some r" by auto
  from cache_holds_returned_translation [of ascii_lower ?q "lit ''Software''" ?answer r sq,
      THEN conjunct1] q rq
  have "translation_cache sq = [lit ''software'' \<mapsto> r]" "r = [0x8EDF, 0x4EF6]"
    by (simp_all add: low clean del: remove_prefixes.simps)
  moreover have "s2t_converter sq = Some ?conv" "translation_model sq = (\<lambda>_. None)"
    using q by (auto simp: qwen_stage_def Let_def simp del: remove_prefixes.simps split: if_splits)
  ultimately have 1: "qwen_stage ascii_lower ?q (lit ''Software'') ?answer
      = (Some [0x8EDF, 0x4EF6], \<lparr>s2t_converter = Some ?conv,
         translation_cache = [lit ''software'' \<mapsto> [0x8EDF, 0x4EF6]],
         translation_model = (\<lambda>_. None)\<rparr>)"
    using q rq by (cases sq) simp
  have 2: "marian_stage ascii_lower ?m (lit ''Software'')
     = (Some [0x8EDF, 0x4EF6], \<lparr>s2t_converter = Some ?conv,
         translation_cache = [lit ''software'' \<mapsto> [0x8EDF, 0x4EF6]],
         translation_model = (\<lambda>_. Some [0x8F6F, 0x4EF6])\<rparr>)"
    by (simp add: marian_stage_def strip_software low Let_def) (simp add: lit_def)
  from 1 2 show ?thesis by blast
qed

subsection \<open>The initial prompt\<close>

text \<open>
  C8. In the pipeline and in the UI worker alike: when the configuration holds a non-empty
  custom vocabulary, the ASR is called with the initial prompt made of the base prompt, the
  label, the custom vocabulary and the full stop; when the entry is missing or empty, the
  ASR is called with no prompt (\<open>None\<close>).
\<close>

theorem initial_prompt_from_custom_vocabulary:
  "(config (lit ''whisper_custom_prompt'') = Some custom \<and> custom \<noteq> [] \<longrightarrow>
      pipeline_transcribe transcribe config path =
        transcribe \<lparr>audio_path = path, language = lit ''yue'',
          initial_prompt = Some (base_prompt
            @ [0x7528, 0x6236, 0x6307, 0x5B9A, 0x8A5E, 0x5F59, 0xFF1A] @ custom @ [0x3002])\<rparr> \<and>
      worker_transcribe transcribe config path =
        transcribe \<lparr>audio_path = path, language = lit ''yue'',
          initial_prompt = Some (base_prompt
            @ [0x7528, 0x6236, 0x6307, 0x5B9A, 0x8A5E, 0x5F59, 0xFF1A] @ custom @ [0x3002])\<rparr>) \<and>
   (config (lit ''whisper_custom_prompt'') = None \<or>
    config (lit ''whisper_custom_prompt'') = Some [] \<longrightarrow>
      pipeline_transcribe transcribe config path =
        transcribe \<lparr>audio_path = path, language = lit ''yue'', initial_prompt = None\<rparr> \<and>
      worker_transcribe transcribe config path =
        transcribe \<lparr>audio_path = path, language = lit ''yue'', initial_prompt = None\<rparr>)"
  by (auto simp: pipeline_transcribe_def worker_transcribe_def config_get_def)

text \<open>The custom vocabulary \<open>Eason\<close>, and an empty configuration.\<close>

theorem initial_prompt_from_custom_vocabulary_witness:
  "initial_prompt (pipeline_transcribe (\<lambda>args. args)
      [lit ''whisper_custom_prompt'' \<mapsto> lit ''Eason''] (lit ''a.wav''))
     = Some (base_prompt @ [0x7528, 0x6236, 0x6307, 0x5B9A, 0x8A5E, 0x5F59, 0xFF1A]
             @ lit ''Eason'' @ [0x3002]) \<and>
   initial_prompt (worker_transcribe (\<lambda>args. args) Map.empty (lit ''a.wav'')) = None"
proof -
  have "lit ''Eason'' \<noteq> []" by (simp add: lit_def)
  with initial_prompt_from_custom_vocabulary [of "[lit ''whisper_custom_prompt'' \<mapsto> lit ''Eason'']"
      "lit ''Eason''" "\<lambda>args. args" "lit ''a.wav''"]
    initial_prompt_from_custom_vocabulary [of Map.empty "[]" "\<lambda>args. args" "lit ''a.wav''"]
  show ?thesis by simp
qed

end
